theory Spec2Isabelle
  imports Complex_Main "HOL-Library.Char_ord" "HOL-Library.List_Lexorder"
    "HOL-Library.Product_Lexorder"
begin

chapter \<open>The model\<close>

section \<open>Text\<close>

text \<open>
  A Python \<open>str\<close> is modelled as a list of characters read as the code points
  0..255, so that the non-breaking space \<open>\xa0\<close> of \<open>app.py\<close> is the character
  with code 160. Code points above 255 are outside the model.
\<close>

definition nbsp :: char where
  "nbsp = CHR 0xA0"

text \<open>
  \<open>str.isspace\<close> on the code points below 256: tab to carriage return, the four
  separators 28..31, the space, NEL (133) and the non-breaking space (160). The
  pattern \<open>\s\<close> of \<open>re\<close> on a \<open>str\<close> matches the same characters.
\<close>

definition is_space :: "char \<Rightarrow> bool" where
  "is_space c =
     (let n = (of_char c :: nat)
      in (9 \<le> n \<and> n \<le> 13) \<or> (28 \<le> n \<and> n \<le> 32) \<or> n = 133 \<or> n = 160)"

text \<open>Characters of a class taken off both ends.\<close>

definition strip_with :: "(char \<Rightarrow> bool) \<Rightarrow> string \<Rightarrow> string" where
  "strip_with P s = rev (dropWhile P (rev (dropWhile P s)))"

text \<open>\<open>str.strip()\<close> with no argument: whitespace off both ends.\<close>

definition str_strip :: "string \<Rightarrow> string" where
  "str_strip s = strip_with is_space s"

text \<open>
  \<open>str.lower()\<close> on the code points below 256: \<open>A..Z\<close> and the letters 192..222
  (the multiplication sign 215 apart) move up by 32, everything else stays.
\<close>

definition lower_char :: "char \<Rightarrow> char" where
  "lower_char c =
     (let n = (of_char c :: nat)
      in if (65 \<le> n \<and> n \<le> 90) \<or> (192 \<le> n \<and> n \<le> 222 \<and> n \<noteq> 215)
         then char_of (n + 32) else c)"

definition str_lower :: "string \<Rightarrow> string" where
  "str_lower s = map lower_char s"

text \<open>
  \<open>str.upper()\<close>: \<open>a..z\<close> and the letters 224..254 (the division sign 247 apart)
  move down by 32 and the sharp s (223) becomes \<open>SS\<close>. The micro sign (181) and the
  y with diaeresis (255) have capitals above 255 and are left as they are here.
\<close>

definition upper_char :: "char \<Rightarrow> string" where
  "upper_char c =
     (let n = (of_char c :: nat)
      in if (97 \<le> n \<and> n \<le> 122) \<or> (224 \<le> n \<and> n \<le> 254 \<and> n \<noteq> 247)
         then [char_of (n - 32)]
         else if n = 223 then ''SS'' else [c])"

definition str_upper :: "string \<Rightarrow> string" where
  "str_upper s = concat (map upper_char s)"

text \<open>\<open>re.sub(r'\s+', ' ', s)\<close>: every maximal run of whitespace becomes one space.\<close>

function collapse_ws :: "string \<Rightarrow> string" where
  "collapse_ws [] = []"
| "collapse_ws (c # cs) =
     (if is_space c then CHR '' '' # collapse_ws (dropWhile is_space cs)
      else c # collapse_ws cs)"
  by pat_completeness auto
termination
  by (relation "measure length") (auto simp: length_dropWhile_le less_Suc_eq_le)

text \<open>\<open>s.replace(ch, '')\<close> for a one-character \<open>ch\<close>.\<close>

definition remove_char :: "char \<Rightarrow> string \<Rightarrow> string" where
  "remove_char ch s = filter (\<lambda>c. c \<noteq> ch) s"

section \<open>Floating-point values and cells\<close>

text \<open>
  A Python \<open>float\<close>, a binary64 number: a finite value, the two infinities, or NaN.
  A finite float is kept as the rational it denotes (the sign of zero is not
  kept). Text is turned into a float below by rounding to the nearest binary64
  number. Float sums are not computed by the model: pandas adds in an order of
  its own and rounds each step, so the sum of a list of floats is a parameter
  \<open>fsum\<close> of the aggregations.
\<close>

datatype pyfloat = Fin rat | PInf | NInf | NaN

text \<open>
  A cell of a frame holds text or a float; pandas marks a missing cell with the
  float NaN, so \<open>Flt NaN\<close> is the missing cell. (Integers, dates and booleans, which
  \<open>read_excel\<close> can also return, are outside the model: a number of a sheet is
  taken as a float.)
\<close>

datatype cell = Str string | Flt pyfloat

definition isna :: "cell \<Rightarrow> bool" where
  "isna c = (c = Flt NaN)"

datatype error =
  KeyError | IndexError | ValueError | TypeError | AttributeError | InvalidIndexError

subsection \<open>Rounding to binary64\<close>

text \<open>The number of binary digits of a natural number.\<close>

fun bit_length :: "nat \<Rightarrow> nat" where
  "bit_length n = (if n = 0 then 0 else Suc (bit_length (n div 2)))"

declare bit_length.simps [simp del]

text \<open>\<open>a / b\<close> rounded to the nearest natural number, a tie going to the even one.\<close>

definition round_half_even :: "nat \<Rightarrow> nat \<Rightarrow> nat" where
  "round_half_even a b =
     (let q = a div b; r = a mod b
      in if 2 * r < b then q
         else if b < 2 * r then q + 1
         else if even q then q else q + 1)"

definition pow2 :: "int \<Rightarrow> rat" where
  "pow2 k = (if 0 \<le> k then 2 ^ nat k else 1 / 2 ^ nat (- k))"

text \<open>
  The binary64 number nearest to \<open>num / den\<close> (\<open>den\<close> positive, \<open>neg\<close> the sign), ties to even: with
  \<open>e\<close> the binary exponent of the value, the value is rounded to a multiple of
  \<open>2 ^ (max e (-1022) - 52)\<close>, and a result of \<open>2 ^ 1024\<close> or more is infinite.
\<close>

definition nearest_float :: "bool \<Rightarrow> nat \<Rightarrow> nat \<Rightarrow> pyfloat" where
  "nearest_float neg num den =
     (if num = 0 then Fin 0
      else
        (let e0 = int (bit_length num) - int (bit_length den);
             below = (if 0 \<le> e0 then num < den * 2 ^ nat e0 else num * 2 ^ nat (- e0) < den);
             e = (if below then e0 - 1 else e0);
             t = max e (- 1022) - 52;
             n = (if 0 \<le> t then round_half_even num (den * 2 ^ nat t)
                  else round_half_even (num * 2 ^ nat (- t)) den)
         in if 0 \<le> t \<and> (2 :: nat) ^ 1024 \<le> n * 2 ^ nat t
            then (if neg then NInf else PInf)
            else Fin ((if neg then - 1 else 1) * of_nat n * pow2 t)))"

subsection \<open>\<open>float(s)\<close>\<close>

text \<open>
  The characters that \<open>float\<close> takes off both ends of a \<open>str\<close>: the ASCII
  whitespace, and the whitespace above 127 (which it first turns into spaces). The
  separators 28..31 are not among them.
\<close>

definition is_float_space :: "char \<Rightarrow> bool" where
  "is_float_space c =
     (let n = (of_char c :: nat)
      in (9 \<le> n \<and> n \<le> 13) \<or> n = 32 \<or> n = 133 \<or> n = 160)"

definition is_digit :: "char \<Rightarrow> bool" where
  "is_digit c = (let n = (of_char c :: nat) in 48 \<le> n \<and> n \<le> 57)"

definition digit_val :: "char \<Rightarrow> nat" where
  "digit_val c = of_char c - 48"

text \<open>The digits after a first digit: \<open>(["_"] digit)*\<close>; returns them and the rest.\<close>

fun more_digits :: "string \<Rightarrow> string \<times> string" where
  "more_digits [] = ([], [])"
| "more_digits [c] = (if is_digit c then ([c], []) else ([], [c]))"
| "more_digits (c # d # cs) =
     (if is_digit c then (case more_digits (d # cs) of (ds, r) \<Rightarrow> (c # ds, r))
      else if c = CHR ''_'' \<and> is_digit d
           then (case more_digits cs of (ds, r) \<Rightarrow> (d # ds, r))
      else ([], c # d # cs))"

text \<open>\<open>digitpart ::= digit (["_"] digit)*\<close>.\<close>

definition digitpart :: "string \<Rightarrow> (string \<times> string) option" where
  "digitpart s =
     (case s of
        [] \<Rightarrow> None
      | c # cs \<Rightarrow>
          if is_digit c then (case more_digits cs of (ds, r) \<Rightarrow> Some (c # ds, r))
          else None)"

definition digits_nat :: "string \<Rightarrow> nat" where
  "digits_nat ds = foldl (\<lambda>a c. 10 * a + digit_val c) 0 ds"

definition sign_of :: "string \<Rightarrow> bool \<times> string" where
  "sign_of s =
     (case s of
        [] \<Rightarrow> (False, [])
      | c # cs \<Rightarrow>
          if c = CHR ''-'' then (True, cs)
          else if c = CHR ''+'' then (False, cs)
          else (False, c # cs))"

text \<open>
  The float written with integer digits \<open>ip\<close>, fraction digits \<open>fp\<close> and decimal
  exponent \<open>e\<close>: the nearest binary64 number.
\<close>

definition decimal_float :: "bool \<Rightarrow> string \<Rightarrow> string \<Rightarrow> int \<Rightarrow> pyfloat" where
  "decimal_float neg ip fp e =
     (let m = digits_nat (ip @ fp); k = e - int (length fp)
      in if 0 \<le> k then nearest_float neg (m * 10 ^ nat k) 1
         else nearest_float neg m (10 ^ nat (- k)))"

text \<open>The optional exponent, which must end the text; returns the decimal exponent.\<close>

definition exponent_part :: "string \<Rightarrow> int option" where
  "exponent_part r =
     (case r of
        [] \<Rightarrow> Some 0
      | c # r1 \<Rightarrow>
          if c = CHR ''e'' \<or> c = CHR ''E''
          then (case sign_of r1 of
                  (neg, r2) \<Rightarrow>
                    (case digitpart r2 of
                       Some (ds, []) \<Rightarrow>
                         Some (if neg then - int (digits_nat ds) else int (digits_nat ds))
                     | _ \<Rightarrow> None))
          else None)"

text \<open>
  A decimal number: \<open>digitpart ["." [digitpart]] [exponent]\<close> or
  \<open>"." digitpart [exponent]\<close>; returns its integer digits, fraction digits and
  exponent.
\<close>

definition number :: "string \<Rightarrow> (string \<times> string \<times> int) option" where
  "number s =
     (case digitpart s of
        Some (ip, r1) \<Rightarrow>
          (case r1 of
             [] \<Rightarrow> Some (ip, [], 0)
           | c # r2 \<Rightarrow>
               if c = CHR ''.''
               then (case digitpart r2 of
                       Some (fp, r3) \<Rightarrow> map_option (\<lambda>e. (ip, fp, e)) (exponent_part r3)
                     | None \<Rightarrow> map_option (\<lambda>e. (ip, [], e)) (exponent_part r2))
               else map_option (\<lambda>e. (ip, [], e)) (exponent_part r1))
      | None \<Rightarrow>
          (case s of
             [] \<Rightarrow> None
           | c # r2 \<Rightarrow>
               if c = CHR ''.''
               then (case digitpart r2 of
                       Some (fp, r3) \<Rightarrow> map_option (\<lambda>e. ([], fp, e)) (exponent_part r3)
                     | None \<Rightarrow> None)
               else None))"

text \<open>
  \<open>float(s)\<close> for a \<open>str\<close>: whitespace off both ends, an optional sign, then
  \<open>inf\<close>, \<open>infinity\<close> or \<open>nan\<close> in any case, or a decimal number; \<open>None\<close> is the
  \<open>ValueError\<close>.
\<close>

definition py_float :: "string \<Rightarrow> pyfloat option" where
  "py_float s =
     (case sign_of (strip_with is_float_space s) of
        (neg, r) \<Rightarrow>
          if str_lower r = ''inf'' \<or> str_lower r = ''infinity''
          then Some (if neg then NInf else PInf)
          else if str_lower r = ''nan'' then Some NaN
          else (case number r of
                  None \<Rightarrow> None
                | Some (ip, fp, e) \<Rightarrow> Some (decimal_float neg ip fp e)))"

section \<open>Series and frames\<close>

text \<open>
  A \<open>Series\<close> is the list of its values in row order. A \<open>DataFrame\<close> is its column
  labels and its rows; in a well-formed frame every row has one cell per label. The
  row index is not kept: the code resets it or ignores it everywhere.
\<close>

type_synonym series = "cell list"

record frame =
  columns :: "cell list"
  rows :: "cell list list"

definition wf_frame :: "frame \<Rightarrow> bool" where
  "wf_frame f = list_all (\<lambda>r. length r = length (columns f)) (rows f)"

text \<open>The positions of the columns that carry a label, and the column at a position.\<close>

definition positions :: "cell \<Rightarrow> cell list \<Rightarrow> nat list" where
  "positions l ls = filter (\<lambda>i. ls ! i = l) [0..<length ls]"

definition column :: "frame \<Rightarrow> nat \<Rightarrow> series" where
  "column f i = map (\<lambda>r. r ! i) (rows f)"

text \<open>The column at a position replaced by a Series with one value per row.\<close>

definition put_column :: "frame \<Rightarrow> nat \<Rightarrow> series \<Rightarrow> frame" where
  "put_column f i vs = f\<lparr>rows := map2 (\<lambda>r v. r[i := v]) (rows f) vs\<rparr>"

text \<open>
  \<open>df[label] = value\<close> for one value: every column with that label is filled with
  it; when there is none, a new column is appended on the right.
\<close>

definition assign_scalar :: "frame \<Rightarrow> cell \<Rightarrow> cell \<Rightarrow> frame" where
  "assign_scalar f l v =
     (if l \<in> set (columns f)
      then f\<lparr>rows := map (\<lambda>r. map2 (\<lambda>c x. if c = l then v else x) (columns f) r) (rows f)\<rparr>
      else f\<lparr>columns := columns f @ [l], rows := map (\<lambda>r. r @ [v]) (rows f)\<rparr>)"

text \<open>\<open>df.dropna(how='all')\<close>: a row is kept when at least one of its cells is not missing.\<close>

definition dropna_all :: "frame \<Rightarrow> frame" where
  "dropna_all f = f\<lparr>rows := filter (\<lambda>r. \<not> list_all isna r) (rows f)\<rparr>"

section \<open>Reading one sheet (lines 25 to 46)\<close>

text \<open>
  The input of the sheet loop is, per sheet, its name and the frame that
  \<open>pd.read_excel\<close> returns for it: the first line of the sheet has become the
  labels of that frame (made distinct by \<open>read_excel\<close>) and the lines below it are
  its rows.
\<close>

text \<open>\<open>df.drop(label, axis=1)\<close>: every column with that label goes.\<close>

definition drop_label :: "cell \<Rightarrow> frame \<Rightarrow> frame" where
  "drop_label l f =
     f\<lparr>columns := filter (\<lambda>c. c \<noteq> l) (columns f),
       rows := map (\<lambda>r. map snd (filter (\<lambda>(c, x). c \<noteq> l) (zip (columns f) r))) (rows f)\<rparr>"

text \<open>
  \<open>df.drop(index=0).reset_index(drop=True)\<close> on a frame whose rows are numbered
  from 0: the first row goes; \<open>KeyError\<close> when there is no row.
\<close>

definition drop_index0 :: "frame \<Rightarrow> error + frame" where
  "drop_index0 f =
     (case rows f of
        [] \<Rightarrow> Inl KeyError
      | r # rs \<Rightarrow> Inr (f\<lparr>rows := rs\<rparr>))"

text \<open>\<open>df.iloc[0]\<close>: the first row; \<open>IndexError\<close> when there is no row.\<close>

definition iloc0 :: "frame \<Rightarrow> error + cell list" where
  "iloc0 f =
     (case rows f of
        [] \<Rightarrow> Inl IndexError
      | r # rs \<Rightarrow> Inr r)"

definition normalize_sheet :: "string \<Rightarrow> frame \<Rightarrow> error + frame" where
  "normalize_sheet sheet df =
     (case columns df of
        [] \<Rightarrow> Inl IndexError
      | c0 # cs \<Rightarrow>
          (case drop_index0 (drop_label c0 df) of
             Inl e \<Rightarrow> Inl e
           | Inr df2 \<Rightarrow>
               (case iloc0 df2 of
                  Inl e \<Rightarrow> Inl e
                | Inr header \<Rightarrow>
                    (case drop_index0 (df2\<lparr>columns := header\<rparr>) of
                       Inl e \<Rightarrow> Inl e
                     | Inr df4 \<Rightarrow>
                         Inr (assign_scalar (dropna_all df4) (Str ''client'') (Str sheet))))))"

section \<open>The sheet loop (lines 23 to 49)\<close>

text \<open>\<open>d[k] = v\<close> on a dictionary kept in insertion order.\<close>

fun dict_set :: "('k \<times> 'v) list \<Rightarrow> 'k \<Rightarrow> 'v \<Rightarrow> ('k \<times> 'v) list" where
  "dict_set [] k v = [(k, v)]"
| "dict_set ((k', v') # d) k v = (if k' = k then (k, v) # d else (k', v') # dict_set d k v)"

text \<open>What the loop shows for a sheet: \<open>st.success\<close> with the rows kept, or \<open>st.error\<close>.\<close>

datatype message = Processed string nat | Failed string error

text \<open>
  The loop, with \<open>sheets_data\<close> and the messages shown so far as its state. The
  \<open>except\<close> branch of a sheet only shows the error; the loop goes on.
\<close>

fun process_sheets ::
  "(string \<times> frame) list \<Rightarrow> (string \<times> frame) list \<times> message list
     \<Rightarrow> (string \<times> frame) list \<times> message list" where
  "process_sheets [] st = st"
| "process_sheets ((sheet, df) # rest) (sheets_data, shown) =
     (case normalize_sheet sheet df of
        Inl e \<Rightarrow> process_sheets rest (sheets_data, shown @ [Failed sheet e])
      | Inr t \<Rightarrow>
          process_sheets rest
            (dict_set sheets_data sheet t, shown @ [Processed sheet (length (rows t))]))"

section \<open>Cleaning the column names (lines 52 to 58)\<close>

text \<open>
  \<open>.str.strip().str.lower().str.replace(r'\s+', ' ', regex=True)\<close> on the labels: a
  label that is not text becomes NaN under \<open>.str\<close>.
\<close>

definition clean_name :: "cell \<Rightarrow> cell" where
  "clean_name l =
     (case l of
        Str s \<Rightarrow> Str (collapse_ws (str_lower (str_strip s)))
      | Flt x \<Rightarrow> Flt NaN)"

definition clean_columns :: "frame \<Rightarrow> frame" where
  "clean_columns f = f\<lparr>columns := map clean_name (columns f)\<rparr>"

section \<open>Combining (lines 60 to 65)\<close>

text \<open>The values of a list in the order of their first occurrence.\<close>

definition unique :: "'a list \<Rightarrow> 'a list" where
  "unique xs = rev (remdups (rev xs))"

text \<open>A row laid out under new labels; a label the row does not have gives NaN.\<close>

definition reindex_row :: "cell list \<Rightarrow> cell list \<Rightarrow> cell list \<Rightarrow> cell list" where
  "reindex_row new old r =
     map (\<lambda>l. case positions l old of [] \<Rightarrow> Flt NaN | i # is \<Rightarrow> r ! i) new"

text \<open>
  \<open>pd.concat(frames, ignore_index=True)\<close>: \<open>ValueError\<close> with no frame; frames with
  the same labels are stacked; otherwise the labels are united in the order of
  their first occurrence, which needs them distinct within each frame.
\<close>

definition concat_frames :: "frame list \<Rightarrow> error + frame" where
  "concat_frames fs =
     (case fs of
        [] \<Rightarrow> Inl ValueError
      | f0 # rest \<Rightarrow>
          if list_all (\<lambda>f. columns f = columns f0) fs
          then Inr \<lparr>columns = columns f0, rows = concat (map rows fs)\<rparr>
          else if list_all (\<lambda>f. distinct (columns f)) fs
          then (let allc = unique (concat (map columns fs))
                in Inr \<lparr>columns = allc,
                        rows = concat (map (\<lambda>f. map (reindex_row allc (columns f)) (rows f)) fs)\<rparr>)
          else Inl InvalidIndexError)"

text \<open>\<open>Series.ffill()\<close>: a missing value takes the last value seen that is not missing.\<close>

fun ffill_from :: "cell \<Rightarrow> series \<Rightarrow> series" where
  "ffill_from prev [] = []"
| "ffill_from prev (c # cs) =
     (if isna c then prev # ffill_from prev cs else c # ffill_from c cs)"

definition ffill :: "series \<Rightarrow> series" where
  "ffill cs = ffill_from (Flt NaN) cs"

text \<open>
  Line 65, \<open>combined_df['job no'] = combined_df['job no'].ffill()\<close>: \<open>KeyError\<close> when
  no column has the label; otherwise every column with the label (there is one
  when the labels are distinct) is filled on its own.
\<close>

definition fill_job_no :: "frame \<Rightarrow> error + frame" where
  "fill_job_no f =
     (case positions (Str ''job no'') (columns f) of
        [] \<Rightarrow> Inl KeyError
      | p # ps \<Rightarrow> Inr (foldl (\<lambda>g i. put_column g i (ffill (column g i))) f (p # ps)))"

text \<open>Lines 61 to 65: concatenate, drop the empty rows, fill \<open>job no\<close>.\<close>

definition concat_and_fill :: "(string \<times> frame) list \<Rightarrow> error + frame" where
  "concat_and_fill sheets_data =
     (case concat_frames (map snd sheets_data) of
        Inl e \<Rightarrow> Inl e
      | Inr combined \<Rightarrow> fill_job_no (dropna_all combined))"

section \<open>Numeric coercion (lines 68 to 80)\<close>

text \<open>
  \<open>Series.astype(str)\<close>: text stays, the missing cell becomes the text \<open>nan\<close>, an
  infinity \<open>inf\<close> or \<open>-inf\<close>, and a finite number its \<open>repr\<close>. The \<open>repr\<close> of a
  finite float is Python's own and is a parameter of the model.
\<close>

definition astype_str :: "(rat \<Rightarrow> string) \<Rightarrow> cell \<Rightarrow> string" where
  "astype_str repr c =
     (case c of
        Str s \<Rightarrow> s
      | Flt x \<Rightarrow>
          (case x of
             Fin q \<Rightarrow> repr q
           | PInf \<Rightarrow> ''inf''
           | NInf \<Rightarrow> ''-inf''
           | NaN \<Rightarrow> ''nan''))"

text \<open>\<open>.str.replace(ch, '', regex=False)\<close> and \<open>.str.strip()\<close> on a Series of text.\<close>

definition series_remove :: "char \<Rightarrow> string list \<Rightarrow> string list" where
  "series_remove ch ss = map (remove_char ch) ss"

definition series_strip :: "string list \<Rightarrow> string list" where
  "series_strip ss = map str_strip ss"

text \<open>\<open>Series.replace('', '0')\<close>: a value equal to the empty text becomes \<open>0\<close>.\<close>

definition series_replace :: "string \<Rightarrow> string \<Rightarrow> string list \<Rightarrow> string list" where
  "series_replace old new ss = map (\<lambda>s. if s = old then new else s) ss"

text \<open>\<open>.astype(float)\<close>: \<open>float\<close> of every value; the first failure raises.\<close>

fun astype_float :: "string list \<Rightarrow> error + pyfloat list" where
  "astype_float [] = Inr []"
| "astype_float (s # ss) =
     (case py_float s of
        None \<Rightarrow> Inl ValueError
      | Some x \<Rightarrow>
          (case astype_float ss of
             Inl e \<Rightarrow> Inl e
           | Inr xs \<Rightarrow> Inr (x # xs)))"

text \<open>The chain of lines 70 to 78 on one column.\<close>

definition to_numeric :: "(rat \<Rightarrow> string) \<Rightarrow> series \<Rightarrow> error + pyfloat list" where
  "to_numeric repr col =
     astype_float
       (series_replace [] ''0''
         (series_strip
           (series_remove nbsp
             (series_remove CHR '','' (map (astype_str repr) col)))))"

text \<open>
  One turn of the loop over the two column names. A name that is no label gives a
  warning (the second component collects them). With the label on one column, the
  column is replaced by its numeric form. With the label on several columns,
  \<open>combined_df[col]\<close> is a frame, which has no \<open>.str\<close>: \<open>AttributeError\<close>.
\<close>

definition coerce_one ::
  "(rat \<Rightarrow> string) \<Rightarrow> string \<Rightarrow> frame \<times> string list \<Rightarrow> error + frame \<times> string list" where
  "coerce_one repr col st =
     (case st of
        (f, warnings) \<Rightarrow>
          (case positions (Str col) (columns f) of
             [] \<Rightarrow> Inr (f, warnings @ [col])
           | [p] \<Rightarrow>
               (case to_numeric repr (column f p) of
                  Inl e \<Rightarrow> Inl e
                | Inr xs \<Rightarrow> Inr (put_column f p (map Flt xs), warnings))
           | p # p' # ps \<Rightarrow> Inl AttributeError))"

definition coerce_columns :: "(rat \<Rightarrow> string) \<Rightarrow> frame \<Rightarrow> error + frame \<times> string list" where
  "coerce_columns repr f =
     (case coerce_one repr ''quantity/mt'' (f, []) of
        Inl e \<Rightarrow> Inl e
      | Inr st \<Rightarrow> coerce_one repr ''invoice amount'' st)"

text \<open>Lines 61 to 80: the combined frame and the warnings.\<close>

definition combine ::
  "(rat \<Rightarrow> string) \<Rightarrow> (string \<times> frame) list \<Rightarrow> error + frame \<times> string list" where
  "combine repr sheets_data =
     (case concat_and_fill sheets_data of
        Inl e \<Rightarrow> Inl e
      | Inr filled \<Rightarrow> coerce_columns repr filled)"

text \<open>Lines 18 to 80 on the frames of a workbook: what the loop showed, and the combined frame.\<close>

definition load_and_combine ::
  "(rat \<Rightarrow> string) \<Rightarrow> (string \<times> frame) list
     \<Rightarrow> message list \<times> (error + frame \<times> string list)" where
  "load_and_combine repr sheets =
     (case process_sheets sheets ([], []) of
        (sheets_data, shown) \<Rightarrow>
          (shown, combine repr (map (\<lambda>(sheet, t). (sheet, clean_columns t)) sheets_data)))"

subsection \<open>The coercion as the specification words it\<close>

text \<open>
  The reading of one value that the specification gives: to text, commas out,
  non-breaking spaces out, trimmed, the empty text read as \<open>0\<close>, parsed as a float.
\<close>

definition spec_clean :: "(rat \<Rightarrow> string) \<Rightarrow> cell \<Rightarrow> string" where
  "spec_clean repr c =
     (let t = str_strip (remove_char nbsp (remove_char CHR '','' (astype_str repr c)))
      in if t = [] then ''0'' else t)"

definition spec_coerce :: "(rat \<Rightarrow> string) \<Rightarrow> cell \<Rightarrow> pyfloat option" where
  "spec_coerce repr c = py_float (spec_clean repr c)"

definition numeric_labels :: "cell list" where
  "numeric_labels = [Str ''quantity/mt'', Str ''invoice amount'']"

text \<open>Every value under one of the labels \<open>ls\<close> has a reading.\<close>

definition coercible_on :: "(rat \<Rightarrow> string) \<Rightarrow> cell list \<Rightarrow> frame \<Rightarrow> bool" where
  "coercible_on repr ls f =
     list_all (\<lambda>r. list_all (\<lambda>(l, v). l \<in> set ls \<longrightarrow> spec_coerce repr v \<noteq> None)
                    (zip (columns f) r)) (rows f)"

text \<open>The frame with every value under one of the labels \<open>ls\<close> replaced by its reading.\<close>

definition coerced_on :: "(rat \<Rightarrow> string) \<Rightarrow> cell list \<Rightarrow> frame \<Rightarrow> frame" where
  "coerced_on repr ls f =
     f\<lparr>rows := map (\<lambda>r. map (\<lambda>(l, v). if l \<in> set ls
                                       then Flt (the (spec_coerce repr v)) else v)
                          (zip (columns f) r)) (rows f)\<rparr>"

definition coercible :: "(rat \<Rightarrow> string) \<Rightarrow> frame \<Rightarrow> bool" where
  "coercible repr f = coercible_on repr numeric_labels f"

definition coerced :: "(rat \<Rightarrow> string) \<Rightarrow> frame \<Rightarrow> frame" where
  "coerced repr f = coerced_on repr numeric_labels f"

text \<open>
  A cell of text that the cleanup of lines 70 to 76 leaves empty: nothing in it but
  commas, non-breaking spaces and whitespace.
\<close>

definition blank_text :: "cell \<Rightarrow> bool" where
  "blank_text c =
     (case c of
        Str s \<Rightarrow> str_strip (remove_char nbsp (remove_char CHR '','' s)) = []
      | Flt x \<Rightarrow> False)"

section \<open>The rows the aggregations read\<close>

text \<open>
  \<open>.sum()\<close> of pandas, on a Series and on a group: NaN values are skipped, the sum
  of nothing is 0, and the other values are added by the float sum \<open>fsum\<close>.
\<close>

definition nansum :: "(pyfloat list \<Rightarrow> pyfloat) \<Rightarrow> pyfloat list \<Rightarrow> pyfloat" where
  "nansum fsum xs =
     (case filter (\<lambda>x. x \<noteq> NaN) xs of
        [] \<Rightarrow> Fin 0
      | y # ys \<Rightarrow> fsum (y # ys))"

text \<open>
  The order in which \<open>groupby\<close> lists its keys: numbers before text, numbers by
  value, text by code points.
\<close>

definition cell_key :: "cell \<Rightarrow> nat \<times> rat \<times> string" where
  "cell_key c =
     (case c of
        Str s \<Rightarrow> (3, 0, s)
      | Flt x \<Rightarrow>
          (case x of
             NInf \<Rightarrow> (0, 0, [])
           | Fin q \<Rightarrow> (1, q, [])
           | PInf \<Rightarrow> (2, 0, [])
           | NaN \<Rightarrow> (4, 0, [])))"

text \<open>
  Of a row of the combined frame, after the coercion: its \<open>client\<close>, \<open>currency\<close>
  and \<open>job no\<close> cells and its two numbers.
\<close>

record crow =
  client :: cell
  currency :: cell
  job_no :: cell
  quantity :: pyfloat
  invoice :: pyfloat

text \<open>
  The column with a label, as lines 83 to 127 select it: \<open>KeyError\<close> when no column
  has the label, and an error too when several have (\<open>groupby\<close> then refuses the
  key, and \<open>.str\<close> the selection).
\<close>

definition the_column :: "frame \<Rightarrow> string \<Rightarrow> error + series" where
  "the_column f l =
     (case positions (Str l) (columns f) of
        [] \<Rightarrow> Inl KeyError
      | [p] \<Rightarrow> Inr (column f p)
      | p # p' # ps \<Rightarrow> Inl ValueError)"

text \<open>
  The floats of a numeric column. After lines 68 to 80 such a column holds floats
  only; text in it is reported as \<open>TypeError\<close>.
\<close>

fun float_cells :: "series \<Rightarrow> error + pyfloat list" where
  "float_cells [] = Inr []"
| "float_cells (c # cs) =
     (case c of
        Str s \<Rightarrow> Inl TypeError
      | Flt x \<Rightarrow>
          (case float_cells cs of
             Inl e \<Rightarrow> Inl e
           | Inr xs \<Rightarrow> Inr (x # xs)))"

text \<open>The five columns that lines 83 to 127 read, row by row.\<close>

definition read_rows :: "frame \<Rightarrow> error + crow list" where
  "read_rows f =
     (case the_column f ''client'' of Inl e \<Rightarrow> Inl e | Inr cl \<Rightarrow>
      case the_column f ''currency'' of Inl e \<Rightarrow> Inl e | Inr cu \<Rightarrow>
      case the_column f ''job no'' of Inl e \<Rightarrow> Inl e | Inr jo \<Rightarrow>
      case the_column f ''quantity/mt'' of Inl e \<Rightarrow> Inl e | Inr qc \<Rightarrow>
      case the_column f ''invoice amount'' of Inl e \<Rightarrow> Inl e | Inr ic \<Rightarrow>
      case float_cells qc of Inl e \<Rightarrow> Inl e | Inr qs \<Rightarrow>
      case float_cells ic of Inl e \<Rightarrow> Inl e | Inr is \<Rightarrow>
        Inr (map (\<lambda>i. \<lparr>client = cl ! i, currency = cu ! i, job_no = jo ! i,
                        quantity = qs ! i, invoice = is ! i\<rparr>)
                 [0..<length (rows f)]))"

section \<open>Summary by client and currency (lines 83 to 95)\<close>

record summary_row =
  s_client :: cell
  s_currency :: cell
  s_quantity :: pyfloat
  s_invoice :: pyfloat

text \<open>
  \<open>groupby(['client', 'currency'])\<close>: the pairs of keys that occur, a pair with a
  missing key left out, in sorted order.
\<close>

definition summary_keys :: "crow list \<Rightarrow> (cell \<times> cell) list" where
  "summary_keys rs =
     sort_key (\<lambda>(c, u). (cell_key c, cell_key u))
       (remdups (map (\<lambda>r. (client r, currency r))
                  (filter (\<lambda>r. \<not> isna (client r) \<and> \<not> isna (currency r)) rs)))"

definition group_rows :: "cell \<times> cell \<Rightarrow> crow list \<Rightarrow> crow list" where
  "group_rows k rs = filter (\<lambda>r. (client r, currency r) = k) rs"

definition groupby_client_currency ::
  "(pyfloat list \<Rightarrow> pyfloat) \<Rightarrow> crow list \<Rightarrow> summary_row list" where
  "groupby_client_currency fsum rs =
     map (\<lambda>k. \<lparr>s_client = fst k, s_currency = snd k,
               s_quantity = nansum fsum (map quantity (group_rows k rs)),
               s_invoice = nansum fsum (map invoice (group_rows k rs))\<rparr>)
       (summary_keys rs)"

text \<open>Lines 89 to 93: the test of the rows that are dropped.\<close>

definition blank_and_zero :: "(rat \<Rightarrow> string) \<Rightarrow> summary_row \<Rightarrow> bool" where
  "blank_and_zero repr r =
     (str_strip (astype_str repr (s_currency r)) = [] \<and>
      s_quantity r = Fin 0 \<and> s_invoice r = Fin 0)"

text \<open>Line 95, \<open>dropna(subset=[...], how='all')\<close>: the test of the rows that are dropped.\<close>

definition both_nan :: "summary_row \<Rightarrow> bool" where
  "both_nan r = (s_quantity r = NaN \<and> s_invoice r = NaN)"

definition summarize ::
  "(rat \<Rightarrow> string) \<Rightarrow> (pyfloat list \<Rightarrow> pyfloat) \<Rightarrow> crow list \<Rightarrow> summary_row list" where
  "summarize repr fsum rs =
     filter (\<lambda>r. \<not> both_nan r)
       (filter (\<lambda>r. \<not> blank_and_zero repr r) (groupby_client_currency fsum rs))"

section \<open>Overall totals (lines 223 to 245)\<close>

definition total_qty :: "(pyfloat list \<Rightarrow> pyfloat) \<Rightarrow> crow list \<Rightarrow> pyfloat" where
  "total_qty fsum rs = nansum fsum (map quantity rs)"

text \<open>The function given to \<open>rename\<close>: text is stripped and upper-cased, other labels stay.\<close>

definition rename_label :: "cell \<Rightarrow> cell" where
  "rename_label c =
     (case c of
        Str s \<Rightarrow> Str (str_upper (str_strip s))
      | Flt x \<Rightarrow> Flt x)"

text \<open>
  \<open>groupby('currency')['invoice amount'].sum()\<close>, a Series with the currencies that
  occur as its index, and then \<open>.rename(...)\<close>, which relabels that index entry by
  entry.
\<close>

definition currency_keys :: "crow list \<Rightarrow> cell list" where
  "currency_keys rs =
     sort_key cell_key (remdups (filter (\<lambda>u. \<not> isna u) (map currency rs)))"

definition groupby_currency ::
  "(pyfloat list \<Rightarrow> pyfloat) \<Rightarrow> crow list \<Rightarrow> (cell \<times> pyfloat) list" where
  "groupby_currency fsum rs =
     map (\<lambda>u. (u, nansum fsum (map invoice (filter (\<lambda>r. currency r = u) rs))))
       (currency_keys rs)"

definition inv_by_cur ::
  "(pyfloat list \<Rightarrow> pyfloat) \<Rightarrow> crow list \<Rightarrow> (cell \<times> pyfloat) list" where
  "inv_by_cur fsum rs = map (\<lambda>(u, total). (rename_label u, total)) (groupby_currency fsum rs)"

text \<open>
  \<open>Series.get(key, default)\<close>: the default when no entry has the label, the value
  when one has, and the Series of the values when several have.
\<close>

datatype lookup = Scalar pyfloat | Several "pyfloat list"

definition series_get :: "(cell \<times> pyfloat) list \<Rightarrow> cell \<Rightarrow> pyfloat \<Rightarrow> lookup" where
  "series_get s key dflt =
     (case filter (\<lambda>(k, v). k = key) s of
        [] \<Rightarrow> Scalar dflt
      | [kv] \<Rightarrow> Scalar (snd kv)
      | kv # kv' # kvs \<Rightarrow> Several (map snd (kv # kv' # kvs)))"

text \<open>
  The format \<open>:,.2f\<close> of the metric cards takes a number; given a Series it raises
  \<open>TypeError\<close>. The result is the number shown.
\<close>

definition metric_number :: "lookup \<Rightarrow> error + pyfloat" where
  "metric_number l =
     (case l of
        Scalar x \<Rightarrow> Inr x
      | Several xs \<Rightarrow> Inl TypeError)"

definition invoice_metric ::
  "(pyfloat list \<Rightarrow> pyfloat) \<Rightarrow> crow list \<Rightarrow> string \<Rightarrow> error + pyfloat" where
  "invoice_metric fsum rs code =
     metric_number (series_get (inv_by_cur fsum rs) (Str code) (Fin 0))"

subsection \<open>The totals as the specification words them\<close>

text \<open>
  The currency codes normalized (trimmed, upper-cased) before grouping: one total
  per normalized code.
\<close>

definition spec_invoice_total ::
  "(pyfloat list \<Rightarrow> pyfloat) \<Rightarrow> crow list \<Rightarrow> string \<Rightarrow> pyfloat" where
  "spec_invoice_total fsum rs code =
     nansum fsum (map invoice (filter (\<lambda>r. rename_label (currency r) = Str code) rs))"

section \<open>Clients by job number (lines 109 to 127)\<close>

text \<open>\<open>drop_duplicates('client')\<close>: the first row of every client is kept.\<close>

fun drop_duplicates :: "cell list \<Rightarrow> (cell \<times> cell) list \<Rightarrow> (cell \<times> cell) list" where
  "drop_duplicates seen [] = []"
| "drop_duplicates seen ((c, j) # rest) =
     (if c \<in> set seen then drop_duplicates seen rest
      else (c, j) # drop_duplicates (c # seen) rest)"

text \<open>\<open>.str.count('\.')\<close>: the number of dots.\<close>

definition count_dots :: "string \<Rightarrow> nat" where
  "count_dots s = length (filter (\<lambda>c. c = CHR ''.'') s)"

text \<open>\<open>s.split(sep)\<close> for a one-character separator.\<close>

fun split_on :: "char \<Rightarrow> string \<Rightarrow> string list" where
  "split_on sep [] = [[]]"
| "split_on sep (c # cs) =
     (if c = sep then [] # split_on sep cs
      else (case split_on sep cs of
              [] \<Rightarrow> [[c]]
            | p # ps \<Rightarrow> (c # p) # ps))"

text \<open>\<open>.str[1]\<close> on a list of parts: the second part, missing when there is none.\<close>

definition part1 :: "string list \<Rightarrow> string option" where
  "part1 ps =
     (case ps of
        a # b # rest \<Rightarrow> Some b
      | _ \<Rightarrow> None)"

text \<open>
  Lines 109 to 114: the pairs of client and \<open>job no\<close> with neither missing, the first
  of every client.
\<close>

definition first_rows :: "crow list \<Rightarrow> (cell \<times> cell) list" where
  "first_rows rs =
     drop_duplicates []
       (filter (\<lambda>(c, j). \<not> isna c \<and> \<not> isna j) (map (\<lambda>r. (client r, job_no r)) rs))"

text \<open>
  Lines 117 and 118: those whose job number has two dots, each with its \<open>Month\<close>.
\<close>

definition first_jobs :: "(rat \<Rightarrow> string) \<Rightarrow> crow list \<Rightarrow> (cell \<times> string option) list" where
  "first_jobs repr rs =
     map (\<lambda>(c, j). (c, part1 (split_on CHR ''.'' (astype_str repr j))))
       (filter (\<lambda>(c, j). count_dots (astype_str repr j) = 2) (first_rows rs))"

text \<open>
  Line 121: \<open>groupby('Month')['client'].apply(list).to_dict()\<close>, a dictionary from
  each month that occurs, in sorted order, to its clients in row order.
\<close>

definition months_of :: "(cell \<times> string option) list \<Rightarrow> string list" where
  "months_of fj = concat (map (\<lambda>(c, mo). case mo of None \<Rightarrow> [] | Some m \<Rightarrow> [m]) fj)"

definition month_groups :: "(cell \<times> string option) list \<Rightarrow> (string \<times> cell list) list" where
  "month_groups fj =
     map (\<lambda>m. (m, map fst (filter (\<lambda>(c, mo). mo = Some m) fj)))
       (sort (remdups (months_of fj)))"

text \<open>\<open>d[k]\<close> for a key of the dictionary.\<close>

definition dict_get :: "('k \<times> 'v list) list \<Rightarrow> 'k \<Rightarrow> 'v list" where
  "dict_get d k = (case map_of d k of None \<Rightarrow> [] | Some v \<Rightarrow> v)"

text \<open>
  \<open>itertools.zip_longest(*lists, fillvalue=None)\<close>: one tuple per position up to the
  length of the longest list, \<open>None\<close> where a list has ended.
\<close>

definition longest :: "'a list list \<Rightarrow> nat" where
  "longest xss = foldr max (map length xss) 0"

definition zip_longest :: "'a list list \<Rightarrow> 'a option list list" where
  "zip_longest xss =
     map (\<lambda>i. map (\<lambda>xs. if i < length xs then Some (xs ! i) else None) xss) [0..<longest xss]"

record pivot =
  p_columns :: "string list"
  p_rows :: "cell option list list"

definition pivot_na :: "cell option \<Rightarrow> bool" where
  "pivot_na x = (case x of None \<Rightarrow> True | Some c \<Rightarrow> isna c)"

definition pivot_df :: "(rat \<Rightarrow> string) \<Rightarrow> crow list \<Rightarrow> pivot" where
  "pivot_df repr rs =
     (let groups = month_groups (first_jobs repr rs);
          sorted_months = sort (map fst groups);
          tuples = zip_longest (map (dict_get groups) sorted_months)
      in \<lparr>p_columns = map (\<lambda>m. ''Job No.'' @ m) sorted_months,
          p_rows = filter (\<lambda>t. \<not> list_all pivot_na t) tuples\<rparr>)"

section \<open>Parameters of the examples\<close>

text \<open>Stands for \<open>repr\<close> in examples that hold no finite number.\<close>

definition no_repr :: "rat \<Rightarrow> string" where
  "no_repr q = []"

text \<open>
  A float sum for the examples: from left to right, finite values added without
  rounding. On the examples below (small whole numbers, or opposite infinities)
  every float sum gives the same result.
\<close>

fun fadd :: "pyfloat \<Rightarrow> pyfloat \<Rightarrow> pyfloat" where
  "fadd (Fin a) (Fin b) = Fin (a + b)"
| "fadd NaN y = NaN"
| "fadd x NaN = NaN"
| "fadd PInf NInf = NaN"
| "fadd NInf PInf = NaN"
| "fadd PInf y = PInf"
| "fadd x PInf = PInf"
| "fadd NInf y = NInf"
| "fadd x NInf = NInf"

definition plain_sum :: "pyfloat list \<Rightarrow> pyfloat" where
  "plain_sum xs = foldl fadd (Fin 0) xs"

chapter \<open>Properties\<close>

section \<open>Helper facts\<close>

lemmas text_defs = str_strip_def strip_with_def is_space_def remove_char_def nbsp_def
  str_lower_def lower_char_def
lemmas float_defs = py_float_def is_float_space_def sign_of_def number_def digitpart_def
  is_digit_def exponent_part_def decimal_float_def digits_nat_def digit_val_def
lemmas round_defs = nearest_float_def round_half_even_def pow2_def Let_def bit_length.simps
lemmas num_defs = to_numeric_def series_replace_def series_strip_def series_remove_def
  astype_str_def

lemma py_float_1234_50: "py_float ''1234.50'' = Some (Fin (2469 / 2))"
  by (simp add: text_defs float_defs round_defs)

lemma py_float_500: "py_float ''500'' = Some (Fin 500)"
  by (simp add: text_defs float_defs round_defs)

lemma py_float_1000: "py_float ''1000'' = Some (Fin 1000)"
  by (simp add: text_defs float_defs round_defs)

lemma py_float_0: "py_float ''0'' = Some (Fin 0)"
  by (simp add: text_defs float_defs round_defs)

lemma py_float_nan: "py_float ''nan'' = Some NaN"
  by (simp add: text_defs float_defs)

lemma py_float_inf: "py_float ''inf'' = Some PInf" "py_float ''-inf'' = Some NInf"
  by (simp_all add: text_defs float_defs)

lemma py_float_bad: "py_float ''123x4'' = None"
  by (simp add: text_defs float_defs)

lemma py_float_tenth: "py_float ''0.1'' = Some (Fin (3602879701896397 / 36028797018963968))"
  by (simp add: text_defs float_defs round_defs)

lemma spec_clean_examples:
  "spec_clean repr (Str ''1,234.50'') = ''1234.50''"
  "spec_clean repr (Str (nbsp # ''500'')) = ''500''"
  "spec_clean repr (Str '''') = ''0''"
  "spec_clean repr (Str ''12,3x4'') = ''123x4''"
  "spec_clean repr (Str ''1,000'') = ''1000''"
  "spec_clean repr (Str ''500'') = ''500''"
  "spec_clean repr (Str '' ,'') = ''0''"
  "spec_clean repr (Flt NaN) = ''nan''"
  "spec_clean repr (Flt PInf) = ''inf''"
  "spec_clean repr (Flt NInf) = ''-inf''"
  by (simp_all add: spec_clean_def astype_str_def text_defs)

lemma spec_coerce_examples:
  "spec_coerce repr (Str ''1,234.50'') = Some (Fin (2469 / 2))"
  "spec_coerce repr (Str (nbsp # ''500'')) = Some (Fin 500)"
  "spec_coerce repr (Str '''') = Some (Fin 0)"
  "spec_coerce repr (Str ''12,3x4'') = None"
  "spec_coerce repr (Str ''1,000'') = Some (Fin 1000)"
  "spec_coerce repr (Str ''500'') = Some (Fin 500)"
  "spec_coerce repr (Str '' ,'') = Some (Fin 0)"
  "spec_coerce repr (Flt NaN) = Some NaN"
  "spec_coerce repr (Flt PInf) = Some PInf"
  "spec_coerce repr (Flt NInf) = Some NInf"
  by (simp_all add: spec_coerce_def spec_clean_examples py_float_1234_50 py_float_500
      py_float_1000 py_float_0 py_float_nan py_float_inf py_float_bad)

subsection \<open>Positions and columns\<close>

lemma positions_Nil: "positions l ls = [] \<longleftrightarrow> l \<notin> set ls"
  by (auto simp: positions_def filter_empty_conv in_set_conv_nth)

lemma filter_eq_upt: "p < n \<Longrightarrow> filter (\<lambda>i. i = p) [0..<n] = [p]"
  by (induction n) (auto simp: less_Suc_eq filter_empty_conv)

lemma positions_distinct:
  assumes "distinct ls" "l \<in> set ls"
  shows "\<exists>p. positions l ls = [p] \<and> p < length ls \<and> ls ! p = l"
proof -
  from assms(2) obtain p where p: "p < length ls" "ls ! p = l"
    by (auto simp: in_set_conv_nth)
  have "filter (\<lambda>i. ls ! i = l) [0..<length ls] = filter (\<lambda>i. i = p) [0..<length ls]"
    using assms(1) p by (intro filter_cong) (auto simp: nth_eq_iff_index_eq)
  with p show ?thesis by (auto simp: positions_def filter_eq_upt)
qed

lemma to_numeric_map:
  "to_numeric repr col = astype_float (map (spec_clean repr) col)"
  unfolding to_numeric_def series_replace_def series_strip_def series_remove_def
  by (simp add: spec_clean_def Let_def o_def cong: map_cong)

lemma astype_float_eq:
  "astype_float ss =
     (if list_all (\<lambda>s. py_float s \<noteq> None) ss then Inr (map (\<lambda>s. the (py_float s)) ss)
      else Inl ValueError)"
  by (induction ss) (auto split: option.splits sum.splits)

lemma to_numeric_eq:
  "to_numeric repr col =
     (if list_all (\<lambda>c. spec_coerce repr c \<noteq> None) col
      then Inr (map (\<lambda>c. the (spec_coerce repr c)) col)
      else Inl ValueError)"
  by (simp add: to_numeric_map astype_float_eq list_all_iff spec_coerce_def o_def)

lemma map2_map_same: "map2 f xs (map g xs) = map (\<lambda>x. f x (g x)) xs"
  by (induction xs) auto

lemma put_column_map:
  "put_column f p (map g (column f p)) = f\<lparr>rows := map (\<lambda>r. r[p := g (r ! p)]) (rows f)\<rparr>"
  by (simp add: put_column_def column_def map2_map_same o_def)

lemma row_update_label:
  assumes "distinct cs" "length r = length cs" "p < length cs"
  shows "r[p := G (r ! p)] = map (\<lambda>(l, v). if l \<in> {cs ! p} then G v else v) (zip cs r)"
  using assms by (intro nth_equalityI) (auto simp: nth_list_update nth_eq_iff_index_eq)

lemma wf_row: "wf_frame f \<Longrightarrow> r \<in> set (rows f) \<Longrightarrow> length r = length (columns f)"
  by (simp add: wf_frame_def list_all_iff)

lemma zip_label_value:
  assumes "distinct cs" "length r = length cs" "p < length cs"
  shows "(\<forall>(l, v)\<in>set (zip cs r). l \<in> {cs ! p} \<longrightarrow> Q v) = Q (r ! p)"
proof
  assume a: "\<forall>(l, v)\<in>set (zip cs r). l \<in> {cs ! p} \<longrightarrow> Q v"
  have "(cs ! p, r ! p) \<in> set (zip cs r)"
    using assms by (auto simp: set_zip)
  with a show "Q (r ! p)" by auto
next
  assume q: "Q (r ! p)"
  show "\<forall>(l, v)\<in>set (zip cs r). l \<in> {cs ! p} \<longrightarrow> Q v"
    using assms q by (auto simp: set_zip nth_eq_iff_index_eq)
qed

lemma coerce_one_absent:
  "Str c \<notin> set (columns f) \<Longrightarrow> coerce_one repr c (f, w) = Inr (f, w @ [c])"
  using positions_Nil [of "Str c" "columns f"] by (simp add: coerce_one_def)

lemma coerce_one_present:
  assumes wf: "wf_frame f" and d: "distinct (columns f)" and m: "Str c \<in> set (columns f)"
  shows "coerce_one repr c (f, w) =
     (if coercible_on repr [Str c] f then Inr (coerced_on repr [Str c] f, w)
      else Inl ValueError)"
proof -
  from positions_distinct [OF d m] obtain p
    where p: "positions (Str c) (columns f) = [p]" "p < length (columns f)"
      "columns f ! p = Str c" by blast
  have ok: "list_all (\<lambda>v. spec_coerce repr v \<noteq> None) (column f p) = coercible_on repr [Str c] f"
    using zip_label_value [OF d wf_row [OF wf] p(2), of _ "\<lambda>v. spec_coerce repr v \<noteq> None"] p(3)
    by (simp add: coercible_on_def column_def list_all_iff)
  have upd: "map (\<lambda>r. r[p := Flt (the (spec_coerce repr (r ! p)))]) (rows f)
      = map (\<lambda>r. map (\<lambda>(l, v). if l \<in> {Str c} then Flt (the (spec_coerce repr v)) else v)
                        (zip (columns f) r)) (rows f)"
    using row_update_label [OF d wf_row [OF wf] p(2), of _ "\<lambda>v. Flt (the (spec_coerce repr v))"]
      p(3)
    by (intro map_cong) auto
  have "put_column f p (map Flt (map (\<lambda>c. the (spec_coerce repr c)) (column f p)))
      = coerced_on repr [Str c] f"
    using put_column_map [of f p "\<lambda>v. Flt (the (spec_coerce repr v))"] upd
    by (simp add: coerced_on_def o_def)
  then show ?thesis
    using p(1) ok by (simp add: coerce_one_def to_numeric_eq)
qed

lemma columns_coerced_on: "columns (coerced_on repr ls f) = columns f"
  by (simp add: coerced_on_def)

lemma wf_coerced_on: "wf_frame f \<Longrightarrow> wf_frame (coerced_on repr ls f)"
  by (auto simp: wf_frame_def coerced_on_def list_all_iff)

lemma coerced_on_absent:
  "a \<notin> set (columns f) \<Longrightarrow> coerced_on repr (a # ls) f = coerced_on repr ls f"
proof -
  assume a: "a \<notin> set (columns f)"
  have "map (\<lambda>(l, v). if l \<in> set (a # ls) then G v else v) (zip (columns f) r)
      = map (\<lambda>(l, v). if l \<in> set ls then G v else v) (zip (columns f) r)"
    for r :: "cell list" and G
    using a by (intro map_cong) (auto dest: set_zip_leftD)
  then show ?thesis by (simp add: coerced_on_def)
qed

lemma coercible_on_absent:
  "a \<notin> set (columns f) \<Longrightarrow> coercible_on repr (a # ls) f = coercible_on repr ls f"
  unfolding coercible_on_def list_all_iff
  by (auto dest: set_zip_leftD)

lemma coerced_on_Nil: "wf_frame f \<Longrightarrow> coerced_on repr [] f = f"
proof -
  assume wf: "wf_frame f"
  have "map (\<lambda>(l, v). v) (zip (columns f) r) = r" if "r \<in> set (rows f)" for r
    using wf_row [OF wf that] by (simp add: case_prod_unfold map_snd_zip)
  then have "map (\<lambda>r. map (\<lambda>(l, v). v) (zip (columns f) r)) (rows f) = rows f"
    by (simp add: map_idI)
  then show ?thesis by (simp add: coerced_on_def)
qed

lemma coercible_on_Nil: "coercible_on repr [] f"
  by (simp add: coercible_on_def list_all_iff)

lemma coercible_on_pair:
  "coercible_on repr [a, b] f = (coercible_on repr [a] f \<and> coercible_on repr [b] f)"
  unfolding coercible_on_def list_all_iff by auto

lemma row_twice:
  assumes "length r = length cs" "a \<noteq> b"
  shows "map (\<lambda>(l, v). if l \<in> set [b] then G v else v)
           (zip cs (map (\<lambda>(l, v). if l \<in> set [a] then G v else v) (zip cs r)))
       = map (\<lambda>(l, v). if l \<in> set [a, b] then G v else v) (zip cs r)"
  using assms by (intro nth_equalityI) auto

lemma coerced_on_twice:
  assumes "wf_frame f" "a \<noteq> b"
  shows "coerced_on repr [b] (coerced_on repr [a] f) = coerced_on repr [a, b] f"
  using row_twice [OF wf_row [OF assms(1)] assms(2), of _ "\<lambda>v. Flt (the (spec_coerce repr v))"]
  by (simp add: coerced_on_def o_def cong: map_cong)

lemma coercible_on_after:
  assumes "wf_frame f" "a \<noteq> b"
  shows "coercible_on repr [b] (coerced_on repr [a] f) = coercible_on repr [b] f"
proof -
  have "(\<forall>(l, v)\<in>set (zip cs (map (\<lambda>(l, v). if l \<in> set [a] then G v else v) (zip cs r))).
            l \<in> set [b] \<longrightarrow> Q v)
      = (\<forall>(l, v)\<in>set (zip cs r). l \<in> set [b] \<longrightarrow> Q v)"
    if "length r = length cs" for r :: "cell list" and cs G Q
    using that assms(2) by (auto simp: set_zip)
  from this [OF wf_row [OF assms(1)]] show ?thesis
    by (simp add: coercible_on_def coerced_on_def list_all_iff)
qed

lemma coerce_columns_eq:
  assumes wf: "wf_frame f" and d: "distinct (columns f)"
  shows "coerce_columns repr f =
     (if coercible repr f
      then Inr (coerced repr f,
                filter (\<lambda>c. Str c \<notin> set (columns f)) [''quantity/mt'', ''invoice amount''])
      else Inl ValueError)"
proof -
  let ?q = "Str ''quantity/mt''" and ?i = "Str ''invoice amount''"
  have ne: "?q \<noteq> ?i" by simp
  show ?thesis
  proof (cases "?q \<in> set (columns f)")
    case q: True
    let ?g = "coerced_on repr [?q] f"
    have wfg: "wf_frame ?g" and dg: "distinct (columns ?g)"
      using wf d by (simp_all add: wf_coerced_on columns_coerced_on)
    show ?thesis
    proof (cases "?i \<in> set (columns f)")
      case True
      then have "?i \<in> set (columns ?g)" by (simp add: columns_coerced_on)
      from coerce_one_present [OF wfg dg this] coerce_one_present [OF wf d q] True q
      show ?thesis
        by (simp add: coerce_columns_def coercible_def coerced_def numeric_labels_def
            coercible_on_pair coercible_on_after [OF wf ne] coerced_on_twice [OF wf ne])
    next
      case False
      then have "?i \<notin> set (columns ?g)" by (simp add: columns_coerced_on)
      have 1: "coerced_on repr [?q, ?i] f = coerced_on repr [?q] f"
        using coerced_on_twice [OF wf ne, of repr] coerced_on_absent [of ?i ?g repr "[]"]
          coerced_on_Nil [OF wfg] \<open>?i \<notin> set (columns ?g)\<close> by simp
      have 2: "coercible_on repr [?i] f"
        using coercible_on_absent [OF False, of repr "[]"] by (simp add: coercible_on_Nil)
      from coerce_one_absent [OF \<open>?i \<notin> set (columns ?g)\<close>] coerce_one_present [OF wf d q] False q
      show ?thesis
        by (simp add: coerce_columns_def coercible_def coerced_def numeric_labels_def
            coercible_on_pair 1 2)
    qed
  next
    case q: False
    have cq: "coerced_on repr [?q, ?i] f = coerced_on repr [?i] f"
      and kq: "coercible_on repr [?q, ?i] f = coercible_on repr [?i] f"
      using coerced_on_absent [OF q] coercible_on_absent [OF q] by simp_all
    show ?thesis
    proof (cases "?i \<in> set (columns f)")
      case True
      from coerce_one_present [OF wf d True] coerce_one_absent [OF q] True q
      show ?thesis
        by (simp add: coerce_columns_def coercible_def coerced_def numeric_labels_def cq kq)
    next
      case False
      have "coerced_on repr [?i] f = f" "coercible_on repr [?i] f"
        using coerced_on_absent [OF False, of repr "[]"] coercible_on_absent [OF False, of repr "[]"]
        by (simp_all add: coerced_on_Nil [OF wf] coercible_on_Nil)
      with coerce_one_absent [OF False] coerce_one_absent [OF q] False q
      show ?thesis
        by (simp add: coerce_columns_def coercible_def coerced_def numeric_labels_def cq kq)
    qed
  qed
qed

subsection \<open>Concatenation and fill\<close>

lemma positions_self:
  "distinct cs \<Longrightarrow> k < length cs \<Longrightarrow> positions (cs ! k) cs = [k]"
  using positions_distinct [of cs "cs ! k"] by (auto simp: nth_eq_iff_index_eq)

lemma reindex_row_same:
  "distinct cs \<Longrightarrow> length r = length cs \<Longrightarrow> reindex_row cs cs r = r"
  by (intro nth_equalityI) (simp_all add: reindex_row_def positions_self)

lemma length_reindex_row: "length (reindex_row new old r) = length new"
  by (simp add: reindex_row_def)

lemma distinct_unique: "distinct (unique xs)"
  by (simp add: unique_def)

lemma concat_frames_props:
  assumes ok: "\<forall>f\<in>set fs. wf_frame f \<and> distinct (columns f)"
    and c: "concat_frames fs = Inr c0"
  shows "wf_frame c0 \<and> distinct (columns c0) \<and>
    rows c0 = concat (map (\<lambda>f. map (reindex_row (columns c0) (columns f)) (rows f)) fs)"
proof -
  from c obtain f0 rest where fs: "fs = f0 # rest"
    by (cases fs) (auto simp: concat_frames_def)
  have d: "list_all (\<lambda>f. distinct (columns f)) fs"
    using ok by (simp add: list_all_iff)
  show ?thesis
  proof (cases "list_all (\<lambda>f. columns f = columns f0) fs")
    case True
    with c fs have c0: "c0 = \<lparr>columns = columns f0, rows = concat (map rows fs)\<rparr>"
      by (simp add: concat_frames_def)
    have same: "columns f = columns f0" if "f \<in> set fs" for f
      using True that by (simp add: list_all_iff)
    have 1: "wf_frame c0"
      using ok same by (auto simp: c0 wf_frame_def list_all_iff)
    have 2: "distinct (columns c0)"
      using ok fs by (simp add: c0)
    have "map (reindex_row (columns f0) (columns f)) (rows f) = rows f" if "f \<in> set fs" for f
      using ok that same [OF that]
      by (intro map_idI) (auto simp: reindex_row_same wf_frame_def list_all_iff)
    then have eq: "map (\<lambda>f. map (reindex_row (columns f0) (columns f)) (rows f)) fs = map rows fs"
      by (intro map_cong) auto
    have cols: "columns c0 = columns f0" and r: "rows c0 = concat (map rows fs)"
      by (simp_all add: c0)
    have 3: "rows c0 =
        concat (map (\<lambda>f. map (reindex_row (columns c0) (columns f)) (rows f)) fs)"
      unfolding cols r eq by (rule refl)
    from 1 2 3 show ?thesis by blast
  next
    case False
    with c fs d have c0: "c0 = \<lparr>columns = unique (concat (map columns fs)),
        rows = concat (map (\<lambda>f. map (reindex_row (unique (concat (map columns fs))) (columns f))
                                   (rows f)) fs)\<rparr>"
      by (simp add: concat_frames_def Let_def)
    have 1: "wf_frame c0"
      by (auto simp: c0 wf_frame_def list_all_iff length_reindex_row)
    have 2: "distinct (columns c0)"
      by (simp add: c0 distinct_unique)
    have 3: "rows c0 =
        concat (map (\<lambda>f. map (reindex_row (columns c0) (columns f)) (rows f)) fs)"
      by (simp add: c0)
    from 1 2 3 show ?thesis by blast
  qed
qed

lemma wf_dropna_all: "wf_frame f \<Longrightarrow> wf_frame (dropna_all f)"
  by (auto simp: wf_frame_def dropna_all_def list_all_iff)

lemma columns_dropna_all: "columns (dropna_all f) = columns f"
  by (simp add: dropna_all_def)

lemma length_column: "length (column f p) = length (rows f)"
  by (simp add: column_def)

lemma columns_put_column: "columns (put_column f p vs) = columns f"
  by (simp add: put_column_def)

lemma wf_put_column: "wf_frame f \<Longrightarrow> wf_frame (put_column f p vs)"
  by (auto simp: wf_frame_def put_column_def list_all_iff set_zip)

lemma map2_update_nth:
  "list_all (\<lambda>r. p < length r) rs \<Longrightarrow> length vs = length rs
   \<Longrightarrow> map (\<lambda>r. r ! p) (map2 (\<lambda>r v. r[p := v]) rs vs) = vs"
proof (induction rs arbitrary: vs)
  case Nil then show ?case by simp
next
  case (Cons r rs)
  then obtain v vt where "vs = v # vt" by (cases vs) auto
  with Cons show ?case by simp
qed

lemma map2_update_other:
  "q \<noteq> p \<Longrightarrow> length vs = length rs
   \<Longrightarrow> map (\<lambda>r. r ! q) (map2 (\<lambda>r v. r[p := v]) rs vs) = map (\<lambda>r. r ! q) rs"
proof (induction rs arbitrary: vs)
  case Nil then show ?case by simp
next
  case (Cons r rs)
  then obtain v vt where "vs = v # vt" by (cases vs) auto
  with Cons show ?case by simp
qed

lemma column_put_column_same:
  assumes "wf_frame f" "length vs = length (rows f)" "p < length (columns f)"
  shows "column (put_column f p vs) p = vs"
proof -
  have "list_all (\<lambda>r. p < length r) (rows f)"
    using assms(1,3) by (simp add: wf_frame_def list_all_iff)
  from map2_update_nth [OF this assms(2)] show ?thesis
    by (simp add: column_def put_column_def)
qed

lemma column_put_column_other:
  assumes "length vs = length (rows f)" "q \<noteq> p"
  shows "column (put_column f p vs) q = column f q"
  using map2_update_other [OF assms(2,1)] by (simp add: column_def put_column_def)

lemma length_ffill_from: "length (ffill_from p cs) = length cs"
  by (induction cs arbitrary: p) auto

lemma length_ffill: "length (ffill cs) = length cs"
  by (simp add: ffill_def length_ffill_from)

lemma fill_job_no_eq:
  assumes "distinct (columns f)"
  shows "fill_job_no f =
     (case positions (Str ''job no'') (columns f) of
        [] \<Rightarrow> Inl KeyError
      | p # ps \<Rightarrow> Inr (put_column f p (ffill (column f p))))"
proof (cases "Str ''job no'' \<in> set (columns f)")
  case True
  from positions_distinct [OF assms True] show ?thesis
    by (auto simp: fill_job_no_def)
next
  case False
  then show ?thesis
    using positions_Nil [of "Str ''job no''" "columns f"] by (simp add: fill_job_no_def)
qed

lemma the_column_eq:
  "distinct (columns f) \<Longrightarrow> positions (Str l) (columns f) = p # ps
   \<Longrightarrow> the_column f l = Inr (column f p) \<and> ps = []"
  using positions_distinct [of "columns f" "Str l"] positions_Nil [of "Str l" "columns f"]
  by (auto simp: the_column_def)

lemma column_coerced_on:
  assumes "wf_frame f" "p < length (columns f)" "columns f ! p \<notin> set ls"
  shows "column (coerced_on repr ls f) p = column f p"
proof -
  have "map (\<lambda>(l, v). if l \<in> set ls then G v else v) (zip (columns f) r) ! p = r ! p"
    if "r \<in> set (rows f)" for r G
    using wf_row [OF assms(1) that] assms(2,3) by simp
  then show ?thesis
    by (simp add: column_def coerced_on_def)
qed

lemma positions_Cons:
  "positions l (c # cs) = (if c = l then [0] else []) @ map Suc (positions l cs)"
proof -
  have "[0..<length (c # cs)] = 0 # map Suc [0..<length cs]"
    by (simp add: upt_conv_Cons map_Suc_upt del: upt_Suc)
  then show ?thesis
    by (simp add: positions_def filter_map o_def)
qed

lemma positions_empty: "positions l [] = []"
  by (simp add: positions_def)

lemma spec_coerce_missing: "isna c \<Longrightarrow> spec_coerce repr c = Some NaN"
  by (simp add: isna_def spec_coerce_examples)

lemma spec_coerce_blank: "blank_text c \<Longrightarrow> spec_coerce repr c = Some (Fin 0)"
  by (cases c) (simp_all add: blank_text_def spec_coerce_def spec_clean_def astype_str_def py_float_0)

lemma concat_and_fill_props:
  assumes ok: "\<forall>(n, f)\<in>set sheets_data. wf_frame f \<and> distinct (columns f)"
    and b: "concat_and_fill sheets_data = Inr b"
  shows "\<exists>c0 p. concat_frames (map snd sheets_data) = Inr c0 \<and> wf_frame c0 \<and>
           distinct (columns c0) \<and>
           rows c0 = concat (map (\<lambda>f. map (reindex_row (columns c0) (columns f)) (rows f))
                              (map snd sheets_data)) \<and>
           positions (Str ''job no'') (columns c0) = [p] \<and> p < length (columns c0) \<and>
           b = put_column (dropna_all c0) p (ffill (column (dropna_all c0) p)) \<and>
           wf_frame b \<and> columns b = columns c0"
proof -
  from b obtain c0 where c0: "concat_frames (map snd sheets_data) = Inr c0"
    and f: "fill_job_no (dropna_all c0) = Inr b"
    by (auto simp: concat_and_fill_def split: sum.splits)
  have ok': "\<forall>f\<in>set (map snd sheets_data). wf_frame f \<and> distinct (columns f)"
    using ok by auto
  from concat_frames_props [OF ok' c0]
  have wf: "wf_frame c0" and d: "distinct (columns c0)"
    and r: "rows c0 = concat (map (\<lambda>f. map (reindex_row (columns c0) (columns f)) (rows f))
                              (map snd sheets_data))"
    by blast+
  have dd: "distinct (columns (dropna_all c0))"
    using d by (simp add: columns_dropna_all)
  from f fill_job_no_eq [OF dd] obtain p ps
    where ps: "positions (Str ''job no'') (columns c0) = p # ps"
      and bb: "b = put_column (dropna_all c0) p (ffill (column (dropna_all c0) p))"
    by (auto simp: columns_dropna_all split: list.splits)
  from ps have "Str ''job no'' \<in> set (columns c0)"
    using positions_Nil [of "Str ''job no''" "columns c0"] by auto
  from positions_distinct [OF d this] ps
  have p: "positions (Str ''job no'') (columns c0) = [p]" "p < length (columns c0)"
    by auto
  have "wf_frame b" "columns b = columns c0"
    using wf by (simp_all add: bb wf_put_column wf_dropna_all columns_put_column columns_dropna_all)
  with c0 wf d r p bb show ?thesis by blast
qed

lemma combine_eq:
  assumes ok: "\<forall>(n, f)\<in>set sheets_data. wf_frame f \<and> distinct (columns f)"
    and b: "concat_and_fill sheets_data = Inr b"
  shows "combine repr sheets_data =
     (if coercible repr b
      then Inr (coerced repr b,
                filter (\<lambda>c. Str c \<notin> set (columns b)) [''quantity/mt'', ''invoice amount''])
      else Inl ValueError)"
proof -
  from concat_and_fill_props [OF ok b] have "wf_frame b" "distinct (columns b)"
    by auto
  from coerce_columns_eq [OF this] b show ?thesis
    by (simp add: combine_def)
qed

section \<open>Numeric coercion\<close>

text \<open>
  C1. Let \<open>b\<close> be the combined table as lines 61 to 65 leave it, from tables that
  are well formed with distinct labels. Then lines 68 to 80 do, on every value under
  \<open>quantity/mt\<close> and under \<open>invoice amount\<close>, what the specification says: the
  value is turned to text, commas and non-breaking spaces go, the text is trimmed,
  the empty text is read as \<open>0\<close>, and the result is parsed as a float
  (\<open>spec_coerce\<close>). When every such value parses, the run goes on with each value
  replaced by its float (and a warning for a column that is not there); when one
  does not, the run fails with the error of \<open>float\<close> (\<open>ValueError\<close>, the numeric
  coercion error of the specification) and no value is turned into 0. So
  \<open>1,234.50\<close> gives 1234.5, a non-breaking space before \<open>500\<close> gives 500.0, the
  empty text gives 0.0, and \<open>12,3x4\<close> has no reading.
\<close>

theorem numeric_coercion:
  assumes "\<forall>(n, f)\<in>set sheets_data. wf_frame f \<and> distinct (columns f)"
    and "concat_and_fill sheets_data = Inr b"
  shows "combine repr sheets_data =
           (if coercible repr b
            then Inr (coerced repr b,
                      filter (\<lambda>c. Str c \<notin> set (columns b)) [''quantity/mt'', ''invoice amount''])
            else Inl ValueError) \<and>
         spec_coerce repr (Str ''1,234.50'') = Some (Fin (2469 / 2)) \<and>
         spec_coerce repr (Str (nbsp # ''500'')) = Some (Fin 500) \<and>
         spec_coerce repr (Str '''') = Some (Fin 0) \<and>
         spec_coerce repr (Str ''12,3x4'') = None"
  using combine_eq [OF assms] by (simp add: spec_coerce_examples)

lemmas frame_defs = concat_and_fill_def concat_frames_def dropna_all_def isna_def
  fill_job_no_def positions_Cons positions_empty column_def put_column_def ffill_def
  wf_frame_def

lemma coerced_eval:
  "coerced repr \<lparr>columns = cs, rows = rs\<rparr> =
     \<lparr>columns = cs,
      rows = map (\<lambda>r. map (\<lambda>(l, v). if l = Str ''quantity/mt'' \<or> l = Str ''invoice amount''
                                      then Flt (the (spec_coerce repr v)) else v) (zip cs r)) rs\<rparr>"
  by (simp add: coerced_def coerced_on_def numeric_labels_def)

lemma coercible_eval:
  "coercible repr \<lparr>columns = cs, rows = rs\<rparr> =
     list_all (\<lambda>r. list_all (\<lambda>(l, v). l = Str ''quantity/mt'' \<or> l = Str ''invoice amount''
                                \<longrightarrow> spec_coerce repr v \<noteq> None) (zip cs r)) rs"
  by (simp add: coercible_def coercible_on_def numeric_labels_def)

text \<open>
  C1 on a sheet whose values all parse, and on one with \<open>12,3x4\<close> under
  \<open>invoice amount\<close>.
\<close>

theorem numeric_coercion_witness:
  "combine no_repr
     [(''A'', \<lparr>columns = [Str ''job no'', Str ''quantity/mt'', Str ''invoice amount'', Str ''client''],
               rows = [[Str ''1.1.1'', Str ''1,234.50'', Str (nbsp # ''500''), Str ''A''],
                       [Str ''1.1.2'', Str '''', Flt NaN, Str ''A'']]\<rparr>)] =
     Inr (\<lparr>columns = [Str ''job no'', Str ''quantity/mt'', Str ''invoice amount'', Str ''client''],
            rows = [[Str ''1.1.1'', Flt (Fin (2469 / 2)), Flt (Fin 500), Str ''A''],
                    [Str ''1.1.2'', Flt (Fin 0), Flt NaN, Str ''A'']]\<rparr>, []) \<and>
   combine no_repr
     [(''A'', \<lparr>columns = [Str ''job no'', Str ''quantity/mt'', Str ''invoice amount'', Str ''client''],
               rows = [[Str ''1.1.1'', Str ''5'', Str ''12,3x4'', Str ''A'']]\<rparr>)] =
     Inl ValueError"
proof -
  let ?cs = "[Str ''job no'', Str ''quantity/mt'', Str ''invoice amount'', Str ''client'']"
  let ?f = "\<lparr>columns = ?cs,
               rows = [[Str ''1.1.1'', Str ''1,234.50'', Str (nbsp # ''500''), Str ''A''],
                       [Str ''1.1.2'', Str '''', Flt NaN, Str ''A'']]\<rparr>"
  let ?g = "\<lparr>columns = ?cs, rows = [[Str ''1.1.1'', Str ''5'', Str ''12,3x4'', Str ''A'']]\<rparr>"
  have okf: "\<forall>(n, f)\<in>set [(''A'', ?f)]. wf_frame f \<and> distinct (columns f)"
    and okg: "\<forall>(n, f)\<in>set [(''A'', ?g)]. wf_frame f \<and> distinct (columns f)"
    by (simp_all add: wf_frame_def)
  have bf: "concat_and_fill [(''A'', ?f)] = Inr ?f"
    and bg: "concat_and_fill [(''A'', ?g)] = Inr ?g"
    by (simp_all add: frame_defs)
  have 1: "coercible no_repr ?f" and 2: "\<not> coercible no_repr ?g"
    by (simp_all add: coercible_eval spec_coerce_examples)
  have 3: "coerced no_repr ?f =
      \<lparr>columns = ?cs,
        rows = [[Str ''1.1.1'', Flt (Fin (2469 / 2)), Flt (Fin 500), Str ''A''],
                [Str ''1.1.2'', Flt (Fin 0), Flt NaN, Str ''A'']]\<rparr>"
    by (simp add: coerced_eval spec_coerce_examples)
  from numeric_coercion [OF okf bf, of no_repr] numeric_coercion [OF okg bg, of no_repr] 1 2 3
  show ?thesis by simp
qed

lemma nansum_skips_nan: "nansum fsum (filter (\<lambda>x. x \<noteq> NaN) xs) = nansum fsum xs"
  by (simp add: nansum_def)

lemma total_qty_skips_nan:
  "total_qty fsum (filter (\<lambda>r. quantity r \<noteq> NaN) rs) = total_qty fsum rs"
  by (simp add: total_qty_def nansum_def filter_map o_def)

lemma coerced_cell:
  assumes "wf_frame b" "i < length (rows b)" "k < length (columns b)"
  shows "rows (coerced repr b) ! i ! k =
     (if columns b ! k \<in> set numeric_labels
      then Flt (the (spec_coerce repr (rows b ! i ! k))) else rows b ! i ! k)"
proof -
  have "length (rows b ! i) = length (columns b)"
    using assms(1,2) by (intro wf_row) auto
  with assms(2,3) show ?thesis
    by (simp add: coerced_def coerced_on_def)
qed

text \<open>
  C2, as stated, fails: a missing cell of a coerced column is turned into the text
  \<open>nan\<close> by \<open>astype(str)\<close>, which \<open>float\<close> reads as NaN, so after the combiner
  has run the cell holds NaN and not 0.0.
\<close>

theorem missing_cell_not_zero:
  "concat_and_fill
     [(''A'', \<lparr>columns = [Str ''job no'', Str ''quantity/mt'', Str ''client''],
               rows = [[Str ''1.1.1'', Flt NaN, Str ''A'']]\<rparr>)] =
     Inr \<lparr>columns = [Str ''job no'', Str ''quantity/mt'', Str ''client''],
           rows = [[Str ''1.1.1'', Flt NaN, Str ''A'']]\<rparr> \<and>
   isna (Flt NaN) \<and>
   combine no_repr
     [(''A'', \<lparr>columns = [Str ''job no'', Str ''quantity/mt'', Str ''client''],
               rows = [[Str ''1.1.1'', Flt NaN, Str ''A'']]\<rparr>)] =
     Inr (\<lparr>columns = [Str ''job no'', Str ''quantity/mt'', Str ''client''],
            rows = [[Str ''1.1.1'', Flt NaN, Str ''A'']]\<rparr>, [''invoice amount'']) \<and>
   Flt NaN \<noteq> Flt (Fin 0)"
proof -
  let ?f = "\<lparr>columns = [Str ''job no'', Str ''quantity/mt'', Str ''client''],
               rows = [[Str ''1.1.1'', Flt NaN, Str ''A'']]\<rparr>"
  have ok: "\<forall>(n, f)\<in>set [(''A'', ?f)]. wf_frame f \<and> distinct (columns f)"
    by (simp add: wf_frame_def)
  have b: "concat_and_fill [(''A'', ?f)] = Inr ?f"
    by (simp add: frame_defs)
  have 1: "coercible no_repr ?f"
    by (simp add: coercible_eval spec_coerce_examples)
  have 2: "coerced no_repr ?f = ?f"
    by (simp add: coerced_eval spec_coerce_examples)
  from combine_eq [OF ok b, of no_repr] 1 2 b show ?thesis
    by (simp add: isna_def)
qed

text \<open>
  C2, amended. Let \<open>b\<close> be the combined table as lines 61 to 65 leave it and \<open>c\<close>
  the table after the combiner has run. Then \<open>c\<close> has the labels and the number of
  rows of \<open>b\<close>, and under \<open>quantity/mt\<close> and \<open>invoice amount\<close> every cell of \<open>c\<close>
  holds a float: NaN where the cell of \<open>b\<close> was missing, and exactly 0.0 where it
  was text with nothing but commas, non-breaking spaces and whitespace. The sums
  that follow skip NaN: a sum is the sum of its values other than NaN, and the
  total quantity is the total over the rows whose quantity is not NaN.
\<close>

theorem coerced_columns_hold_floats:
  assumes ok: "\<forall>(n, f)\<in>set sheets_data. wf_frame f \<and> distinct (columns f)"
    and b: "concat_and_fill sheets_data = Inr b"
    and c: "combine repr sheets_data = Inr (c, w)"
  shows "columns c = columns b \<and> length (rows c) = length (rows b) \<and>
         (\<forall>i<length (rows b). \<forall>k<length (columns b).
            columns b ! k \<in> set numeric_labels \<longrightarrow>
              (\<exists>x. rows c ! i ! k = Flt x) \<and>
              (isna (rows b ! i ! k) \<longrightarrow> rows c ! i ! k = Flt NaN) \<and>
              (blank_text (rows b ! i ! k) \<longrightarrow> rows c ! i ! k = Flt (Fin 0))) \<and>
         (\<forall>fsum xs. nansum fsum (filter (\<lambda>x. x \<noteq> NaN) xs) = nansum fsum xs) \<and>
         (\<forall>fsum rs. total_qty fsum (filter (\<lambda>r. quantity r \<noteq> NaN) rs) = total_qty fsum rs)"
proof -
  from concat_and_fill_props [OF ok b] have wf: "wf_frame b" by auto
  from combine_eq [OF ok b, of repr] c have cc: "c = coerced repr b"
    by (auto split: if_splits)
  have 1: "columns c = columns b" "length (rows c) = length (rows b)"
    by (simp_all add: cc coerced_def coerced_on_def)
  have 2: "(\<exists>x. rows c ! i ! k = Flt x) \<and>
           (isna (rows b ! i ! k) \<longrightarrow> rows c ! i ! k = Flt NaN) \<and>
           (blank_text (rows b ! i ! k) \<longrightarrow> rows c ! i ! k = Flt (Fin 0))"
    if "i < length (rows b)" "k < length (columns b)" "columns b ! k \<in> set numeric_labels"
    for i k
    using coerced_cell [OF wf that(1,2), of repr] that(3)
      spec_coerce_missing [of "rows b ! i ! k" repr] spec_coerce_blank [of "rows b ! i ! k" repr]
    by (auto simp: cc)
  from 1 2 show ?thesis
    by (simp add: nansum_skips_nan total_qty_skips_nan)
qed

text \<open>The amended C2 on a row with a missing quantity and a blank invoice amount.\<close>

theorem coerced_columns_hold_floats_witness:
  "combine no_repr
     [(''A'', \<lparr>columns = [Str ''job no'', Str ''quantity/mt'', Str ''invoice amount'', Str ''client''],
               rows = [[Str ''1.1.1'', Flt NaN, Str '' ,'', Str ''A'']]\<rparr>)] =
     Inr (\<lparr>columns = [Str ''job no'', Str ''quantity/mt'', Str ''invoice amount'', Str ''client''],
            rows = [[Str ''1.1.1'', Flt NaN, Flt (Fin 0), Str ''A'']]\<rparr>, []) \<and>
   isna (Flt NaN) \<and> blank_text (Str '' ,'') \<and>
   total_qty plain_sum
     (filter (\<lambda>r. quantity r \<noteq> NaN)
        [\<lparr>client = Str ''A'', currency = Str ''USD'', job_no = Str ''1.1.1'',
          quantity = NaN, invoice = Fin 0\<rparr>]) =
   total_qty plain_sum
     [\<lparr>client = Str ''A'', currency = Str ''USD'', job_no = Str ''1.1.1'',
       quantity = NaN, invoice = Fin 0\<rparr>]"
proof -
  let ?cs = "[Str ''job no'', Str ''quantity/mt'', Str ''invoice amount'', Str ''client'']"
  let ?f = "\<lparr>columns = ?cs, rows = [[Str ''1.1.1'', Flt NaN, Str '' ,'', Str ''A'']]\<rparr>"
  let ?c = "\<lparr>columns = ?cs, rows = [[Str ''1.1.1'', Flt NaN, Flt (Fin 0), Str ''A'']]\<rparr>"
  have ok: "\<forall>(n, f)\<in>set [(''A'', ?f)]. wf_frame f \<and> distinct (columns f)"
    by (simp add: wf_frame_def)
  have b: "concat_and_fill [(''A'', ?f)] = Inr ?f"
    by (simp add: frame_defs)
  have "coercible no_repr ?f" "coerced no_repr ?f = ?c"
    by (simp_all add: coercible_eval coerced_eval spec_coerce_examples)
  with combine_eq [OF ok b, of no_repr] have c: "combine no_repr [(''A'', ?f)] = Inr (?c, [])"
    by simp
  have bl: "isna (Flt NaN)" "blank_text (Str '' ,'')"
    by (simp_all add: isna_def blank_text_def text_defs)
  from coerced_columns_hold_floats [OF ok b c]
  have "\<forall>fsum rs. total_qty fsum (filter (\<lambda>r. quantity r \<noteq> NaN) rs) = total_qty fsum rs"
    by (elim conjE)
  then have tq: "total_qty plain_sum
     (filter (\<lambda>r. quantity r \<noteq> NaN)
        [\<lparr>client = Str ''A'', currency = Str ''USD'', job_no = Str ''1.1.1'',
          quantity = NaN, invoice = Fin 0\<rparr>]) =
   total_qty plain_sum
     [\<lparr>client = Str ''A'', currency = Str ''USD'', job_no = Str ''1.1.1'',
       quantity = NaN, invoice = Fin 0\<rparr>]"
    by blast
  from c bl tq show ?thesis by (intro conjI)
qed

section \<open>Forward fill of the job number\<close>

lemma ffill_from_keep:
  "i < length cs \<Longrightarrow> \<not> isna (cs ! i) \<Longrightarrow> ffill_from p cs ! i = cs ! i"
  by (induction cs arbitrary: p i) (auto simp: nth_Cons split: nat.splits)

lemma ffill_from_leading:
  "i < length cs \<Longrightarrow> \<forall>j\<le>i. isna (cs ! j) \<Longrightarrow> ffill_from p cs ! i = p"
proof (induction cs arbitrary: i)
  case Nil then show ?case by simp
next
  case (Cons c cs)
  from Cons.prems(2) have c: "isna c" by (metis le0 nth_Cons_0)
  show ?case
  proof (cases i)
    case 0 with c show ?thesis by simp
  next
    case (Suc k)
    have "\<forall>j\<le>k. isna (cs ! j)"
      using Cons.prems(2) Suc by (metis Suc_le_mono nth_Cons_Suc)
    with Cons Suc c show ?thesis by simp
  qed
qed

lemma ffill_from_fill:
  "i < length cs \<Longrightarrow> j < i \<Longrightarrow> \<not> isna (cs ! j) \<Longrightarrow> \<forall>k. j < k \<and> k \<le> i \<longrightarrow> isna (cs ! k)
   \<Longrightarrow> ffill_from p cs ! i = cs ! j"
proof (induction cs arbitrary: p i j)
  case Nil then show ?case by simp
next
  case (Cons c cs)
  from Cons.prems(2) obtain i' where i: "i = Suc i'" by (cases i) auto
  show ?case
  proof (cases j)
    case 0
    with Cons.prems have c: "\<not> isna c" by simp
    have "\<forall>k\<le>i'. isna (cs ! k)"
      using Cons.prems(4) 0 i by (metis Suc_le_mono nth_Cons_Suc zero_less_Suc)
    with Cons.prems(1) i have "ffill_from c cs ! i' = c"
      by (intro ffill_from_leading) auto
    with c i 0 show ?thesis by simp
  next
    case (Suc j')
    have "\<forall>k. j' < k \<and> k \<le> i' \<longrightarrow> isna (cs ! k)"
      using Cons.prems(4) Suc i by (metis Suc_le_mono Suc_less_eq nth_Cons_Suc)
    with Cons.prems Suc i have "ffill_from q cs ! i' = cs ! j'" for q
      by (intro Cons.IH) auto
    with i Suc show ?thesis by simp
  qed
qed

lemma ffill_nth:
  assumes "i < length jobs"
  shows "(\<not> isna (jobs ! i) \<longrightarrow> ffill jobs ! i = jobs ! i) \<and>
         (isna (jobs ! i) \<longrightarrow>
            (\<forall>j<i. \<not> isna (jobs ! j) \<and> (\<forall>k. j < k \<and> k < i \<longrightarrow> isna (jobs ! k))
                     \<longrightarrow> ffill jobs ! i = jobs ! j)) \<and>
         ((\<forall>j\<le>i. isna (jobs ! j)) \<longrightarrow> isna (ffill jobs ! i))"
proof (intro conjI impI allI)
  show "ffill jobs ! i = jobs ! i" if "\<not> isna (jobs ! i)"
    using assms that by (simp add: ffill_def ffill_from_keep)
  show "ffill jobs ! i = jobs ! j"
    if "isna (jobs ! i)" "j < i"
       "\<not> isna (jobs ! j) \<and> (\<forall>k. j < k \<and> k < i \<longrightarrow> isna (jobs ! k))" for j
  proof -
    have "\<forall>k. j < k \<and> k \<le> i \<longrightarrow> isna (jobs ! k)"
      using that by (metis le_neq_implies_less)
    with assms that show ?thesis
      unfolding ffill_def by (intro ffill_from_fill) auto
  qed
  show "isna (ffill jobs ! i)" if "\<forall>j\<le>i. isna (jobs ! j)"
    using assms that by (simp add: ffill_def ffill_from_leading isna_def)
qed

text \<open>
  C3. Let \<open>c0\<close> be the concatenation of the tables (from tables that are well formed
  with distinct labels) and \<open>c\<close> the combined table. The rows of \<open>c0\<close> are the rows of
  the tables, table after table, laid out under the labels of \<open>c0\<close>. With \<open>jobs\<close> the
  \<open>job no\<close> column of \<open>c0\<close> without its empty rows, the \<open>job no\<close> column of \<open>c\<close> is the
  forward fill of \<open>jobs\<close> as one column, whatever the clients of the rows: a row that
  has a job number keeps it; a row whose job number is missing takes the one of the
  nearest row before it that has one; and a row with no such row before it, the
  first row in particular, stays missing.
\<close>

theorem job_no_forward_fill:
  assumes ok: "\<forall>(n, f)\<in>set sheets_data. wf_frame f \<and> distinct (columns f)"
    and c0: "concat_frames (map snd sheets_data) = Inr c0"
    and c: "combine repr sheets_data = Inr (c, w)"
  shows "rows c0 = concat (map (\<lambda>(n, f). map (reindex_row (columns c0) (columns f)) (rows f))
                             sheets_data) \<and>
         (\<exists>jobs. the_column (dropna_all c0) ''job no'' = Inr jobs \<and>
                  the_column c ''job no'' = Inr (ffill jobs) \<and>
                  length (rows c) = length jobs \<and>
                  (\<forall>i<length jobs.
                     (\<not> isna (jobs ! i) \<longrightarrow> ffill jobs ! i = jobs ! i) \<and>
                     (isna (jobs ! i) \<longrightarrow>
                        (\<forall>j<i. \<not> isna (jobs ! j) \<and> (\<forall>k. j < k \<and> k < i \<longrightarrow> isna (jobs ! k))
                                 \<longrightarrow> ffill jobs ! i = jobs ! j)) \<and>
                     ((\<forall>j\<le>i. isna (jobs ! j)) \<longrightarrow> isna (ffill jobs ! i))))"
proof -
  from c obtain b where b: "concat_and_fill sheets_data = Inr b"
    by (auto simp: combine_def split: sum.splits)
  from concat_and_fill_props [OF ok b] c0 obtain p
    where wf0: "wf_frame c0" and d0: "distinct (columns c0)"
      and r0: "rows c0 = concat (map (\<lambda>f. map (reindex_row (columns c0) (columns f)) (rows f))
                                  (map snd sheets_data))"
      and p: "positions (Str ''job no'') (columns c0) = [p]" "p < length (columns c0)"
      and bb: "b = put_column (dropna_all c0) p (ffill (column (dropna_all c0) p))"
      and wfb: "wf_frame b" and cb: "columns b = columns c0"
    by auto
  let ?d = "dropna_all c0"
  let ?jobs = "column ?d p"
  from combine_eq [OF ok b, of repr] c have cc: "c = coerced repr b"
    by (auto split: if_splits)
  have 1: "rows c0 = concat (map (\<lambda>(n, f). map (reindex_row (columns c0) (columns f)) (rows f))
                             sheets_data)"
    unfolding r0 by (simp add: o_def case_prod_unfold)
  have 2: "the_column ?d ''job no'' = Inr ?jobs"
    using p by (simp add: the_column_def columns_dropna_all)
  have jl: "columns c0 ! p = Str ''job no''"
    using positions_distinct [OF d0, of "Str ''job no''"] positions_Nil [of "Str ''job no''" "columns c0"] p
    by auto
  have "column b p = ffill ?jobs"
    unfolding bb using wf0 p(2)
    by (intro column_put_column_same)
       (simp_all add: wf_dropna_all length_ffill length_column columns_dropna_all)
  moreover have "column c p = column b p"
    unfolding cc coerced_def using wfb p(2) jl cb
    by (intro column_coerced_on) (simp_all add: numeric_labels_def)
  moreover have "columns c = columns c0"
    by (simp add: cc coerced_def columns_coerced_on cb)
  ultimately have 3: "the_column c ''job no'' = Inr (ffill ?jobs)"
    using p by (simp add: the_column_def)
  have "length (rows c) = length (rows b)"
    by (simp add: cc coerced_def coerced_on_def)
  also have "\<dots> = length (column b p)" by (simp add: length_column)
  also have "\<dots> = length ?jobs" by (simp add: \<open>column b p = ffill ?jobs\<close> length_ffill)
  finally have 4: "length (rows c) = length ?jobs" .
  from 1 2 3 4 ffill_nth [of _ ?jobs] show ?thesis by blast
qed

theorem job_no_forward_fill_witness:
  "combine no_repr
     [(''A'', \<lparr>columns = [Str ''job no'', Str ''quantity/mt'', Str ''client''],
               rows = [[Str ''1.1.1'', Str ''1,000'', Str ''A'']]\<rparr>),
      (''B'', \<lparr>columns = [Str ''job no'', Str ''quantity/mt'', Str ''client''],
               rows = [[Flt NaN, Str ''500'', Str ''B'']]\<rparr>)] =
     Inr (\<lparr>columns = [Str ''job no'', Str ''quantity/mt'', Str ''client''],
            rows = [[Str ''1.1.1'', Flt (Fin 1000), Str ''A''],
                    [Str ''1.1.1'', Flt (Fin 500), Str ''B'']]\<rparr>, [''invoice amount'']) \<and>
   the_column
     \<lparr>columns = [Str ''job no'', Str ''quantity/mt'', Str ''client''],
       rows = [[Str ''1.1.1'', Flt (Fin 1000), Str ''A''],
               [Str ''1.1.1'', Flt (Fin 500), Str ''B'']]\<rparr> ''job no'' =
     Inr (ffill [Str ''1.1.1'', Flt NaN]) \<and>
   ffill [Str ''1.1.1'', Flt NaN] = [Str ''1.1.1'', Str ''1.1.1'']"
proof -
  let ?cs = "[Str ''job no'', Str ''quantity/mt'', Str ''client'']"
  let ?a = "\<lparr>columns = ?cs, rows = [[Str ''1.1.1'', Str ''1,000'', Str ''A'']]\<rparr>"
  let ?b = "\<lparr>columns = ?cs, rows = [[Flt NaN, Str ''500'', Str ''B'']]\<rparr>"
  let ?raw = "\<lparr>columns = ?cs, rows = [[Str ''1.1.1'', Str ''1,000'', Str ''A''],
                                     [Flt NaN, Str ''500'', Str ''B'']]\<rparr>"
  let ?filled = "\<lparr>columns = ?cs, rows = [[Str ''1.1.1'', Str ''1,000'', Str ''A''],
                                        [Str ''1.1.1'', Str ''500'', Str ''B'']]\<rparr>"
  let ?out = "\<lparr>columns = ?cs, rows = [[Str ''1.1.1'', Flt (Fin 1000), Str ''A''],
                                     [Str ''1.1.1'', Flt (Fin 500), Str ''B'']]\<rparr>"
  let ?sd = "[(''A'', ?a), (''B'', ?b)]"
  have ok: "\<forall>(n, f)\<in>set ?sd. wf_frame f \<and> distinct (columns f)"
    by (simp add: wf_frame_def)
  have raw: "concat_frames (map snd ?sd) = Inr ?raw"
    by (simp add: concat_frames_def)
  have b: "concat_and_fill ?sd = Inr ?filled"
    by (simp add: frame_defs)
  have "coercible no_repr ?filled" "coerced no_repr ?filled = ?out"
    by (simp_all add: coercible_eval coerced_eval spec_coerce_examples)
  with combine_eq [OF ok b, of no_repr]
  have c: "combine no_repr ?sd = Inr (?out, [''invoice amount''])"
    by simp
  have j: "the_column (dropna_all ?raw) ''job no'' = Inr [Str ''1.1.1'', Flt NaN]"
    by (simp add: the_column_def frame_defs)
  from job_no_forward_fill [OF ok raw c] j
  have t: "the_column ?out ''job no'' = Inr (ffill [Str ''1.1.1'', Flt NaN])"
    by auto
  have f: "ffill [Str ''1.1.1'', Flt NaN] = [Str ''1.1.1'', Str ''1.1.1'']"
    by (simp add: ffill_def isna_def)
  from c t f show ?thesis by (intro conjI)
qed

section \<open>Cleaning the column names\<close>

lemma is_space_lower_char: "is_space (lower_char c) = is_space c"
  by (auto simp: lower_char_def is_space_def Let_def)

lemma lower_char_idem: "lower_char (lower_char c) = lower_char c"
  by (auto simp: lower_char_def Let_def)

lemma lower_char_space: "lower_char CHR '' '' = CHR '' ''"
  by (simp add: lower_char_def)

lemma str_lower_idem: "str_lower (str_lower s) = str_lower s"
  by (simp add: str_lower_def lower_char_idem)

lemma dropWhile_lower:
  "dropWhile is_space (map lower_char s) = map lower_char (dropWhile is_space s)"
  by (induction s) (simp_all add: is_space_lower_char)

lemma str_lower_collapse: "str_lower (collapse_ws s) = collapse_ws (str_lower s)"
  unfolding str_lower_def
  by (induction s rule: collapse_ws.induct)
     (simp_all add: is_space_lower_char lower_char_space dropWhile_lower)

lemma dropWhile_last:
  "cs \<noteq> [] \<Longrightarrow> \<not> P (last cs) \<Longrightarrow> dropWhile P cs \<noteq> [] \<and> last (dropWhile P cs) = last cs"
  by (induction cs) (auto split: if_splits)

lemma collapse_ws_last:
  "u \<noteq> [] \<Longrightarrow> \<not> is_space (last u) \<Longrightarrow> collapse_ws u \<noteq> [] \<and> last (collapse_ws u) = last u"
proof (induction u rule: collapse_ws.induct)
  case 1 then show ?case by simp
next
  case (2 c cs)
  show ?case
  proof (cases "is_space c")
    case True
    with "2.prems" have cs: "cs \<noteq> []" "\<not> is_space (last cs)" by (auto split: if_splits)
    from dropWhile_last [of cs is_space] "2.IH"(1) [OF True] True cs show ?thesis by simp
  next
    case False
    with "2.IH"(2) "2.prems" show ?thesis by (cases cs) auto
  qed
qed

lemma collapse_ws_hd:
  "u \<noteq> [] \<Longrightarrow> \<not> is_space (hd u) \<Longrightarrow> hd (collapse_ws u) = hd u"
  by (cases u) simp_all

lemma dropWhile_collapse:
  "dropWhile is_space (collapse_ws (dropWhile is_space cs)) = collapse_ws (dropWhile is_space cs)"
proof (cases "dropWhile is_space cs")
  case Nil then show ?thesis by (simp only: collapse_ws.simps dropWhile.simps)
next
  case (Cons d ds)
  have "\<not> is_space (hd (dropWhile is_space cs))"
    by (rule hd_dropWhile) (simp add: Cons)
  then have "\<not> is_space d" by (simp add: Cons)
  with Cons show ?thesis by simp
qed

lemma collapse_ws_idem: "collapse_ws (collapse_ws s) = collapse_ws s"
  by (induction s rule: collapse_ws.induct) (simp_all add: dropWhile_collapse is_space_def)

lemma strip_with_id:
  "s = [] \<or> (\<not> P (hd s) \<and> \<not> P (last s)) \<Longrightarrow> strip_with P s = s"
  by (cases s) (auto simp: strip_with_def last_rev hd_rev dropWhile_eq_self_iff  split: if_splits)

lemma strip_with_ends:
  "strip_with P s = [] \<or> (\<not> P (hd (strip_with P s)) \<and> \<not> P (last (strip_with P s)))"
proof (cases "strip_with P s = []")
  case True then show ?thesis by simp
next
  case False
  let ?d = "dropWhile P s"
  let ?r = "dropWhile P (rev ?d)"
  from False have r: "?r \<noteq> []" by (simp add: strip_with_def)
  have d: "?d \<noteq> []"
  proof
    assume "?d = []"
    then have "?r = []" by (simp only: rev.simps dropWhile.simps)
    with r show False by (rule notE)
  qed
  have 1: "\<not> P (hd ?r)" using r by (rule hd_dropWhile)
  have "\<not> P (hd ?d)" using d by (rule hd_dropWhile)
  then have "\<not> P (last (rev ?d))" using d by (simp add: last_rev)
  with dropWhile_last [of "rev ?d" P] d have "last ?r = last (rev ?d)" by simp
  then have 2: "\<not> P (last ?r)" using d \<open>\<not> P (hd ?d)\<close> by (simp add: last_rev)
  from 1 2 r show ?thesis by (simp add: strip_with_def hd_rev last_rev)
qed

lemma str_strip_idem_on:
  "s = [] \<or> (\<not> is_space (hd s) \<and> \<not> is_space (last s)) \<Longrightarrow> str_strip s = s"
  unfolding str_strip_def by (rule strip_with_id)

lemma lower_ends:
  assumes "s = [] \<or> (\<not> is_space (hd s) \<and> \<not> is_space (last s))"
  shows "str_lower s = [] \<or> (\<not> is_space (hd (str_lower s)) \<and> \<not> is_space (last (str_lower s)))"
  using assms by (cases "s = []") (auto simp: str_lower_def hd_map last_map is_space_lower_char)

lemma collapse_ends:
  assumes "s = [] \<or> (\<not> is_space (hd s) \<and> \<not> is_space (last s))"
  shows "collapse_ws s = [] \<or> (\<not> is_space (hd (collapse_ws s)) \<and> \<not> is_space (last (collapse_ws s)))"
  using assms collapse_ws_last [of s] collapse_ws_hd [of s] by (cases "s = []") auto

lemma clean_text_fixed:
  fixes s :: string
  defines "t \<equiv> collapse_ws (str_lower (str_strip s))"
  shows "collapse_ws (str_lower (str_strip t)) = t"
proof -
  have "t = [] \<or> (\<not> is_space (hd t) \<and> \<not> is_space (last t))"
    unfolding t_def str_strip_def by (intro collapse_ends lower_ends strip_with_ends)
  then have "str_strip t = t" by (rule str_strip_idem_on)
  moreover have "str_lower t = t"
    by (simp add: t_def str_lower_collapse str_lower_idem)
  moreover have "collapse_ws t = t"
    by (simp add: t_def collapse_ws_idem)
  ultimately show ?thesis by simp
qed

lemma clean_name_idem: "clean_name (clean_name l) = clean_name l"
  by (cases l) (simp_all add: clean_name_def clean_text_fixed)

text \<open>
  C8. The cleaner of lines 52 to 58 gives a table the labels it had, each of them
  trimmed, then lower-cased, then with every run of whitespace collapsed to one
  space (a label that is not text becomes NaN). Applied a second time it changes
  nothing: the table cleaned twice is the table cleaned once. The rows, and so the
  cell values, are those of the table given.
\<close>

theorem clean_columns_idempotent:
  "clean_columns (clean_columns f) = clean_columns f \<and>
   rows (clean_columns f) = rows f \<and>
   columns (clean_columns f) = map clean_name (columns f) \<and>
   (\<forall>s. clean_name (Str s) = Str (collapse_ws (str_lower (str_strip s))))"
  by (simp add: clean_columns_def clean_name_def clean_name_idem [unfolded clean_name_def])

lemma clean_name_examples:
  "clean_name (Str ''  Job   No '') = Str ''job no''"
  "clean_name (Str [CHR ''Q'', CHR ''t'', CHR ''y'', CHR 0x09, nbsp, CHR ''M'', CHR ''T'']) = Str ''qty mt''"
  "clean_name (Flt (Fin 2024)) = Flt NaN"
  "clean_name (Str ''client'') = Str ''client''"
  by (simp_all add: clean_name_def text_defs char_of_eq_iff take_bit_eq_mod)

text \<open>C8 on a table with a padded label, a number as a label, and the client column.\<close>

theorem clean_columns_idempotent_witness:
  "clean_columns (clean_columns
     \<lparr>columns = [Str ''  Job   No '', Flt (Fin 2024), Str ''client''],
       rows = [[Str ''1.1.1'', Flt NaN, Str ''A'']]\<rparr>) =
   clean_columns
     \<lparr>columns = [Str ''  Job   No '', Flt (Fin 2024), Str ''client''],
       rows = [[Str ''1.1.1'', Flt NaN, Str ''A'']]\<rparr> \<and>
   clean_columns
     \<lparr>columns = [Str ''  Job   No '', Flt (Fin 2024), Str ''client''],
       rows = [[Str ''1.1.1'', Flt NaN, Str ''A'']]\<rparr> =
     \<lparr>columns = [Str ''job no'', Flt NaN, Str ''client''],
       rows = [[Str ''1.1.1'', Flt NaN, Str ''A'']]\<rparr>"
proof -
  let ?f = "\<lparr>columns = [Str ''  Job   No '', Flt (Fin 2024), Str ''client''],
              rows = [[Str ''1.1.1'', Flt NaN, Str ''A'']]\<rparr>"
  have 1: "clean_columns (clean_columns ?f) = clean_columns ?f"
    using clean_columns_idempotent [of ?f] by (elim conjE)
  have 2: "clean_columns ?f = \<lparr>columns = [Str ''job no'', Flt NaN, Str ''client''],
                               rows = [[Str ''1.1.1'', Flt NaN, Str ''A'']]\<rparr>"
    by (simp add: clean_columns_def clean_name_examples)
  from 1 2 show ?thesis by (intro conjI)
qed

section \<open>Reading one sheet\<close>








section \<open>The sheet loop\<close>




text \<open>
  When no sheet is left, line 61 has nothing to concatenate and raises: what is
  shown then is the error of the sheet and, from the handler of line 217, that one.
\<close>

lemma no_sheet_left:
  "load_and_combine repr
     [(''B'', \<lparr>columns = [Str ''Unnamed: 0'', Str ''Report''],
               rows = [[Flt NaN, Flt NaN]]\<rparr>)] =
     ([Failed ''B'' IndexError], Inl ValueError)"
  by (simp add: load_and_combine_def normalize_sheet_def drop_label_def drop_index0_def
                iloc0_def combine_def concat_and_fill_def concat_frames_def)



section \<open>Rows without a currency\<close>

lemma summary_keys_with_currency:
  "summary_keys (filter (\<lambda>r. \<not> isna (currency r)) rs) = summary_keys rs"
proof -
  have "filter (\<lambda>r. \<not> isna (client r) \<and> \<not> isna (currency r))
          (filter (\<lambda>r. \<not> isna (currency r)) rs) =
        filter (\<lambda>r. \<not> isna (client r) \<and> \<not> isna (currency r)) rs"
    by (induction rs) auto
  then show ?thesis by (simp add: summary_keys_def)
qed

lemma summary_keys_not_na:
  "k \<in> set (summary_keys rs) \<Longrightarrow> \<not> isna (fst k) \<and> \<not> isna (snd k)"
  by (auto simp: summary_keys_def)

lemma group_rows_with_currency:
  "\<not> isna (snd k) \<Longrightarrow> group_rows k (filter (\<lambda>r. \<not> isna (currency r)) rs) = group_rows k rs"
  unfolding group_rows_def by (induction rs) auto

lemma groupby_client_currency_with_currency:
  "groupby_client_currency fsum (filter (\<lambda>r. \<not> isna (currency r)) rs) =
   groupby_client_currency fsum rs"
  unfolding groupby_client_currency_def summary_keys_with_currency
  by (rule map_cong [OF refl]) (simp add: group_rows_with_currency summary_keys_not_na)

lemma currency_keys_with_currency:
  "currency_keys (filter (\<lambda>r. \<not> isna (currency r)) rs) = currency_keys rs"
proof -
  have "filter (\<lambda>u. \<not> isna u) (map currency (filter (\<lambda>r. \<not> isna (currency r)) rs)) =
        filter (\<lambda>u. \<not> isna u) (map currency rs)"
    by (induction rs) auto
  then show ?thesis by (simp add: currency_keys_def)
qed

lemma currency_keys_not_na: "u \<in> set (currency_keys rs) \<Longrightarrow> \<not> isna u"
  by (auto simp: currency_keys_def)

lemma currency_group_with_currency:
  "\<not> isna u \<Longrightarrow> filter (\<lambda>r. currency r = u) (filter (\<lambda>r. \<not> isna (currency r)) rs) =
                 filter (\<lambda>r. currency r = u) rs"
  by (induction rs) auto

lemma groupby_currency_with_currency:
  "groupby_currency fsum (filter (\<lambda>r. \<not> isna (currency r)) rs) = groupby_currency fsum rs"
  unfolding groupby_currency_def currency_keys_with_currency
proof (rule map_cong [OF refl])
  fix u assume "u \<in> set (currency_keys rs)"
  then have "\<not> isna u" by (rule currency_keys_not_na)
  then show "(u, nansum fsum (map invoice (filter (\<lambda>r. currency r = u)
                 (filter (\<lambda>r. \<not> isna (currency r)) rs)))) =
             (u, nansum fsum (map invoice (filter (\<lambda>r. currency r = u) rs)))"
    by (simp only: currency_group_with_currency [OF \<open>\<not> isna u\<close>])
qed

lemma rename_label_na: "isna (rename_label u) = isna u"
  by (cases u) (simp_all add: rename_label_def isna_def)

text \<open>
  C10. The rows whose currency is missing have no part in the summary by client
  and currency nor in the invoice totals by currency: both are what they are on
  the table without those rows, and no row of the summary and no entry of the
  totals has a missing currency. The total quantity is the sum over the
  quantities of all the rows, the ones without a currency among them.
\<close>

theorem missing_currency_rows:
  "summarize repr fsum (filter (\<lambda>r. \<not> isna (currency r)) rs) = summarize repr fsum rs \<and>
   inv_by_cur fsum (filter (\<lambda>r. \<not> isna (currency r)) rs) = inv_by_cur fsum rs \<and>
   (\<forall>r\<in>set (summarize repr fsum rs). \<not> isna (s_currency r)) \<and>
   (\<forall>(u, total)\<in>set (inv_by_cur fsum rs). \<not> isna u) \<and>
   total_qty fsum rs = nansum fsum (map quantity rs)"
proof -
  have 1: "summarize repr fsum (filter (\<lambda>r. \<not> isna (currency r)) rs) = summarize repr fsum rs"
    by (simp add: summarize_def groupby_client_currency_with_currency)
  have 2: "inv_by_cur fsum (filter (\<lambda>r. \<not> isna (currency r)) rs) = inv_by_cur fsum rs"
    by (simp add: inv_by_cur_def groupby_currency_with_currency)
  have 3: "\<forall>r\<in>set (summarize repr fsum rs). \<not> isna (s_currency r)"
    using summary_keys_not_na [of _ rs]
    by (auto simp: summarize_def groupby_client_currency_def)
  have 4: "\<forall>(u, total)\<in>set (inv_by_cur fsum rs). \<not> isna u"
    using currency_keys_not_na [of _ rs]
    by (auto simp: inv_by_cur_def groupby_currency_def rename_label_na)
  from 1 2 3 4 show ?thesis by (simp add: total_qty_def)
qed

text \<open>
  C10 on two rows of client \<open>A\<close>, the second without a currency: the summary and
  the totals by currency have the first row only, the total quantity has both.
\<close>

theorem missing_currency_rows_witness:
  "summarize no_repr plain_sum
     [\<lparr>client = Str ''A'', currency = Str ''USD'', job_no = Str ''1.1.1'',
       quantity = Fin 10, invoice = Fin 100\<rparr>,
      \<lparr>client = Str ''A'', currency = Flt NaN, job_no = Str ''1.1.1'',
       quantity = Fin 5, invoice = Fin 50\<rparr>] =
     [\<lparr>s_client = Str ''A'', s_currency = Str ''USD'', s_quantity = Fin 10,
       s_invoice = Fin 100\<rparr>] \<and>
   inv_by_cur plain_sum
     [\<lparr>client = Str ''A'', currency = Str ''USD'', job_no = Str ''1.1.1'',
       quantity = Fin 10, invoice = Fin 100\<rparr>,
      \<lparr>client = Str ''A'', currency = Flt NaN, job_no = Str ''1.1.1'',
       quantity = Fin 5, invoice = Fin 50\<rparr>] = [(Str ''USD'', Fin 100)] \<and>
   total_qty plain_sum
     [\<lparr>client = Str ''A'', currency = Str ''USD'', job_no = Str ''1.1.1'',
       quantity = Fin 10, invoice = Fin 100\<rparr>,
      \<lparr>client = Str ''A'', currency = Flt NaN, job_no = Str ''1.1.1'',
       quantity = Fin 5, invoice = Fin 50\<rparr>] = Fin 15"
proof -
  let ?r1 = "\<lparr>client = Str ''A'', currency = Str ''USD'', job_no = Str ''1.1.1'',
              quantity = Fin 10, invoice = Fin 100\<rparr>"
  let ?r2 = "\<lparr>client = Str ''A'', currency = Flt NaN, job_no = Str ''1.1.1'',
              quantity = Fin 5, invoice = Fin 50\<rparr>"
  have f: "filter (\<lambda>r. \<not> isna (currency r)) [?r1, ?r2] = [?r1]"
    by (simp add: isna_def)
  have s: "summarize no_repr plain_sum [?r1] =
             [\<lparr>s_client = Str ''A'', s_currency = Str ''USD'', s_quantity = Fin 10,
               s_invoice = Fin 100\<rparr>]"
    by (simp add: summarize_def groupby_client_currency_def summary_keys_def group_rows_def
                  nansum_def plain_sum_def blank_and_zero_def both_nan_def astype_str_def
                  text_defs isna_def)
  have i: "inv_by_cur plain_sum [?r1] = [(Str ''USD'', Fin 100)]"
    by (simp add: inv_by_cur_def groupby_currency_def currency_keys_def nansum_def
                  plain_sum_def rename_label_def str_upper_def upper_char_def text_defs isna_def)
  have t: "total_qty plain_sum [?r1, ?r2] = Fin 15"
    by (simp add: total_qty_def nansum_def plain_sum_def)
  from missing_currency_rows [of no_repr plain_sum "[?r1, ?r2]"]
  have "summarize no_repr plain_sum (filter (\<lambda>r. \<not> isna (currency r)) [?r1, ?r2]) =
          summarize no_repr plain_sum [?r1, ?r2]"
       "inv_by_cur plain_sum (filter (\<lambda>r. \<not> isna (currency r)) [?r1, ?r2]) =
          inv_by_cur plain_sum [?r1, ?r2]"
    by blast+
  then have e: "summarize no_repr plain_sum [?r1] = summarize no_repr plain_sum [?r1, ?r2]"
                "inv_by_cur plain_sum [?r1] = inv_by_cur plain_sum [?r1, ?r2]"
    unfolding f .
  show ?thesis unfolding e [symmetric] s i t by (intro conjI refl)
qed

section \<open>The summary by client and currency\<close>

lemmas summary_defs = summarize_def groupby_client_currency_def summary_keys_def group_rows_def
  nansum_def plain_sum_def blank_and_zero_def both_nan_def astype_str_def isna_def cell_key_def

text \<open>
  C5, as stated, fails: line 95 takes off a further kind of row. A client whose
  quantities under one currency are the two infinities, and whose invoice amounts
  are too, has NaN for both totals. The grouped row is not one with a blank
  currency and two zero totals, and yet the summary does not keep it.
\<close>

theorem both_totals_nan_dropped:
  "groupby_client_currency plain_sum
     [\<lparr>client = Str ''A'', currency = Str ''USD'', job_no = Str ''1.1.1'',
       quantity = PInf, invoice = PInf\<rparr>,
      \<lparr>client = Str ''A'', currency = Str ''USD'', job_no = Str ''1.1.1'',
       quantity = NInf, invoice = NInf\<rparr>] =
     [\<lparr>s_client = Str ''A'', s_currency = Str ''USD'', s_quantity = NaN, s_invoice = NaN\<rparr>] \<and>
   \<not> blank_and_zero no_repr
       \<lparr>s_client = Str ''A'', s_currency = Str ''USD'', s_quantity = NaN, s_invoice = NaN\<rparr> \<and>
   summarize no_repr plain_sum
     [\<lparr>client = Str ''A'', currency = Str ''USD'', job_no = Str ''1.1.1'',
       quantity = PInf, invoice = PInf\<rparr>,
      \<lparr>client = Str ''A'', currency = Str ''USD'', job_no = Str ''1.1.1'',
       quantity = NInf, invoice = NInf\<rparr>] = []"
  by (simp add: summary_defs)

text \<open>
  C5, amended. The summary never has a row whose currency is blank after trimming
  while both its totals are exactly 0, nor a row whose two totals are both NaN.
  Every other grouped row is kept, and the rows kept are in the order of the
  grouping.
\<close>

theorem summary_rows_kept:
  "(\<forall>r\<in>set (summarize repr fsum rs).
      \<not> (str_strip (astype_str repr (s_currency r)) = [] \<and>
         s_quantity r = Fin 0 \<and> s_invoice r = Fin 0) \<and>
      \<not> (s_quantity r = NaN \<and> s_invoice r = NaN)) \<and>
   (\<forall>g\<in>set (groupby_client_currency fsum rs).
      \<not> (str_strip (astype_str repr (s_currency g)) = [] \<and>
         s_quantity g = Fin 0 \<and> s_invoice g = Fin 0) \<and>
      \<not> (s_quantity g = NaN \<and> s_invoice g = NaN) \<longrightarrow> g \<in> set (summarize repr fsum rs)) \<and>
   summarize repr fsum rs =
     filter (\<lambda>g. \<not> (str_strip (astype_str repr (s_currency g)) = [] \<and>
                      s_quantity g = Fin 0 \<and> s_invoice g = Fin 0) \<and>
                  \<not> (s_quantity g = NaN \<and> s_invoice g = NaN))
       (groupby_client_currency fsum rs)"
proof -
  have "summarize repr fsum rs =
     filter (\<lambda>g. \<not> (str_strip (astype_str repr (s_currency g)) = [] \<and>
                      s_quantity g = Fin 0 \<and> s_invoice g = Fin 0) \<and>
                  \<not> (s_quantity g = NaN \<and> s_invoice g = NaN))
       (groupby_client_currency fsum rs)"
    by (simp add: summarize_def blank_and_zero_def both_nan_def conj_commute)
  then show ?thesis by simp
qed

text \<open>
  The amended C5 on four rows: a blank currency with zero totals, a plain group,
  and a group of opposite infinities. The plain group alone is in the summary.
\<close>

theorem summary_rows_kept_witness:
  "summarize no_repr plain_sum
     [\<lparr>client = Str ''B'', currency = Str ''USD'', job_no = Str ''1.1.1'',
       quantity = PInf, invoice = PInf\<rparr>,
      \<lparr>client = Str ''A'', currency = Str ''USD'', job_no = Str ''1.1.1'',
       quantity = Fin 10, invoice = Fin 100\<rparr>,
      \<lparr>client = Str ''A'', currency = Str '' '', job_no = Str ''1.1.1'',
       quantity = Fin 0, invoice = Fin 0\<rparr>,
      \<lparr>client = Str ''B'', currency = Str ''USD'', job_no = Str ''1.1.1'',
       quantity = NInf, invoice = NInf\<rparr>] =
     [\<lparr>s_client = Str ''A'', s_currency = Str ''USD'', s_quantity = Fin 10,
       s_invoice = Fin 100\<rparr>]"
proof -
  let ?rs = "[\<lparr>client = Str ''B'', currency = Str ''USD'', job_no = Str ''1.1.1'',
       quantity = PInf, invoice = PInf\<rparr>,
      \<lparr>client = Str ''A'', currency = Str ''USD'', job_no = Str ''1.1.1'',
       quantity = Fin 10, invoice = Fin 100\<rparr>,
      \<lparr>client = Str ''A'', currency = Str '' '', job_no = Str ''1.1.1'',
       quantity = Fin 0, invoice = Fin 0\<rparr>,
      \<lparr>client = Str ''B'', currency = Str ''USD'', job_no = Str ''1.1.1'',
       quantity = NInf, invoice = NInf\<rparr>]"
  have g: "groupby_client_currency plain_sum ?rs =
     [\<lparr>s_client = Str ''A'', s_currency = Str '' '', s_quantity = Fin 0, s_invoice = Fin 0\<rparr>,
      \<lparr>s_client = Str ''A'', s_currency = Str ''USD'', s_quantity = Fin 10,
        s_invoice = Fin 100\<rparr>,
      \<lparr>s_client = Str ''B'', s_currency = Str ''USD'', s_quantity = NaN, s_invoice = NaN\<rparr>]"
    by (simp add: summary_defs)
  from summary_rows_kept [of no_repr plain_sum ?rs]
  have "summarize no_repr plain_sum ?rs =
     filter (\<lambda>g. \<not> (str_strip (astype_str no_repr (s_currency g)) = [] \<and>
                      s_quantity g = Fin 0 \<and> s_invoice g = Fin 0) \<and>
                  \<not> (s_quantity g = NaN \<and> s_invoice g = NaN))
       (groupby_client_currency plain_sum ?rs)"
    by blast
  then show ?thesis
    unfolding g by (simp add: astype_str_def text_defs)
qed

section \<open>The invoice totals by currency\<close>

lemmas totals_defs = inv_by_cur_def groupby_currency_def currency_keys_def nansum_def
  plain_sum_def rename_label_def str_upper_def upper_char_def series_get_def metric_number_def
  invoice_metric_def spec_invoice_total_def cell_key_def

lemma invoice_metric_absent:
  "Str code \<notin> fst ` set (inv_by_cur fsum rs) \<Longrightarrow> invoice_metric fsum rs code = Inr (Fin 0)"
proof -
  assume "Str code \<notin> fst ` set (inv_by_cur fsum rs)"
  then have "filter (\<lambda>(k, v). k = Str code) (inv_by_cur fsum rs) = []"
    by (force simp: filter_empty_conv)
  then show ?thesis
    by (simp add: invoice_metric_def series_get_def metric_number_def)
qed

text \<open>
  C4 on two rows with the currencies \<open>USD\<close> and \<open>usd\<close>. The code groups by the
  currencies as they are written and renames the groups afterwards, so the totals
  have two entries labelled \<open>USD\<close>; the lookup of \<open>USD\<close> gives both, and the
  metric card, which formats one number, raises \<open>TypeError\<close>. With the codes
  normalized before grouping, the two rows make one total of 150.
\<close>

theorem currencies_renamed_after_grouping:
  "inv_by_cur plain_sum
     [\<lparr>client = Str ''A'', currency = Str ''USD'', job_no = Str ''1.1.1'',
       quantity = Fin 10, invoice = Fin 100\<rparr>,
      \<lparr>client = Str ''A'', currency = Str ''usd'', job_no = Str ''1.1.1'',
       quantity = Fin 5, invoice = Fin 50\<rparr>] =
     [(Str ''USD'', Fin 100), (Str ''USD'', Fin 50)] \<and>
   series_get [(Str ''USD'', Fin 100), (Str ''USD'', Fin 50)] (Str ''USD'') (Fin 0) =
     Several [Fin 100, Fin 50] \<and>
   invoice_metric plain_sum
     [\<lparr>client = Str ''A'', currency = Str ''USD'', job_no = Str ''1.1.1'',
       quantity = Fin 10, invoice = Fin 100\<rparr>,
      \<lparr>client = Str ''A'', currency = Str ''usd'', job_no = Str ''1.1.1'',
       quantity = Fin 5, invoice = Fin 50\<rparr>] ''USD'' = Inl TypeError \<and>
   spec_invoice_total plain_sum
     [\<lparr>client = Str ''A'', currency = Str ''USD'', job_no = Str ''1.1.1'',
       quantity = Fin 10, invoice = Fin 100\<rparr>,
      \<lparr>client = Str ''A'', currency = Str ''usd'', job_no = Str ''1.1.1'',
       quantity = Fin 5, invoice = Fin 50\<rparr>] ''USD'' = Fin 150"
  by (simp add: totals_defs text_defs isna_def char_of_eq_iff take_bit_eq_mod)

end
